theory Spec2Isabelle
  imports Main
begin

section \<open>Text\<close>

text \<open>
  A Python \<open>str\<close> is a sequence of Unicode code points, so a text is a list of
  code points here. \<open>lit\<close> turns an ASCII literal of the source into such a text.
\<close>

type_synonym codepoint = nat
type_synonym str = "codepoint list"

definition lit :: "string \<Rightarrow> str" where
  "lit s = map of_char s"

text \<open>
  The white space of \<open>str.strip()\<close> and of the class \<open>\s\<close> of \<open>re\<close> on a
  \<open>str\<close> pattern: the code points for which \<open>str.isspace\<close> holds.
\<close>

definition isspace :: "codepoint \<Rightarrow> bool" where
  "isspace c \<longleftrightarrow>
     (9 \<le> c \<and> c \<le> 13) \<or> (28 \<le> c \<and> c \<le> 32) \<or> c = 133 \<or> c = 160 \<or> c = 5760 \<or>
     (8192 \<le> c \<and> c \<le> 8202) \<or> c = 8232 \<or> c = 8233 \<or> c = 8239 \<or> c = 8287 \<or>
     c = 12288"

definition strip :: "str \<Rightarrow> str" where
  "strip s = rev (dropWhile isspace (rev (dropWhile isspace s)))"

text \<open>\<open>sep.join(xs)\<close> on a list of texts.\<close>

fun join :: "str \<Rightarrow> str list \<Rightarrow> str" where
  "join sep [] = []"
| "join sep [x] = x"
| "join sep (x # y # ys) = x @ sep @ join sep (y # ys)"

text \<open>The decimal digits of a natural number, as \<open>str(n)\<close> prints them.\<close>

fun decimal :: "nat \<Rightarrow> str" where
  "decimal n = (if n < 10 then [48 + n] else decimal (n div 10) @ [48 + n mod 10])"

section \<open>The regular expression of \<open>analyze_image\<close>\<close>

text \<open>
  The pattern of line 41 is a sequence of single-character classes, each taken once or
  under a greedy star. \<open>match_here\<close> is the backtracking matcher of \<open>re\<close> for such a
  sequence, anchored at the head of the text: a star first tries to take one more
  character and gives it back only when the rest of the pattern fails. The result is the
  length of the match. \<open>re_search\<close> tries the start positions from left to right and
  returns \<open>group(0)\<close> of the first match.
\<close>

datatype cls = Lit codepoint | Space | Dot

datatype piece = One cls | Star cls

fun in_cls :: "cls \<Rightarrow> codepoint \<Rightarrow> bool" where
  "in_cls (Lit a) c = (c = a)"
| "in_cls Space c = isspace c"
| "in_cls Dot c = True"

fun match_here :: "piece list \<Rightarrow> str \<Rightarrow> nat option" where
  "match_here [] s = Some 0"
| "match_here (One k # ps) [] = None"
| "match_here (One k # ps) (c # cs) =
     (if in_cls k c then map_option Suc (match_here ps cs) else None)"
| "match_here (Star k # ps) [] = match_here ps []"
| "match_here (Star k # ps) (c # cs) =
     (if in_cls k c
      then (case match_here (Star k # ps) cs of
              Some n \<Rightarrow> Some (Suc n)
            | None \<Rightarrow> match_here ps (c # cs))
      else match_here ps (c # cs))"

fun re_search :: "piece list \<Rightarrow> str \<Rightarrow> str option" where
  "re_search ps [] = map_option (\<lambda>n. []) (match_here ps [])"
| "re_search ps (c # cs) =
     (case match_here ps (c # cs) of
        Some n \<Rightarrow> Some (take n (c # cs))
      | None \<Rightarrow> re_search ps cs)"

text \<open>
  \<^verbatim>\<open>r'\[\s*\{.*\}\s*\]'\<close> with \<open>re.DOTALL\<close>, under which the dot takes every
  character, the newline too. The brackets and braces are the code points 91, 93, 123
  and 125.
\<close>

definition json_array_pattern :: "piece list" where
  "json_array_pattern =
     [One (Lit 91), Star Space, One (Lit 123), Star Dot, One (Lit 125), Star Space,
      One (Lit 93)]"

section \<open>Values, exceptions and the outside world\<close>

text \<open>
  What \<open>json.loads\<close> returns: \<open>None\<close>, a \<open>bool\<close>, an \<open>int\<close>, a \<open>float\<close>, a
  \<open>str\<close>, a \<open>list\<close> or a \<open>dict\<close> with text keys (an association list with distinct
  keys, in insertion order). A finite float is \<open>m * 2 ^ e\<close>.
\<close>

datatype pyfloat = Finite int int | Infinity bool | NaN

datatype json =
    JNull
  | JBool bool
  | JInt int
  | JFloat pyfloat
  | JStr str
  | JArr "json list"
  | JObj "(str \<times> json) list"

text \<open>
  The exceptions of the model are all subclasses of \<open>Exception\<close>; each carries the text
  that \<open>str(e)\<close> gives.
\<close>

datatype py_error =
    JSONDecodeError str
  | ValueError str
  | AttributeError str
  | TypeError str
  | UnicodeEncodeError str
  | OtherException str

fun message :: "py_error \<Rightarrow> str" where
  "message (JSONDecodeError m) = m"
| "message (ValueError m) = m"
| "message (AttributeError m) = m"
| "message (TypeError m) = m"
| "message (UnicodeEncodeError m) = m"
| "message (OtherException m) = m"

text \<open>
  \<open>s.encode('utf-8')\<close>. A text holds code points up to \<open>0x10FFFF\<close>; the
  surrogates, \<open>0xD800\<close> to \<open>0xDFFF\<close>, cannot be encoded (a text that
  \<open>json.loads\<close> returns may hold one). The exception names the first run of
  surrogates: the character, with four hexadecimal digits, when the run is one character
  long, the positions of the run otherwise. Code point 39 is the apostrophe, 92 the
  backslash.
\<close>

type_synonym bytes = "nat list"

definition is_surrogate :: "codepoint \<Rightarrow> bool" where
  "is_surrogate c \<longleftrightarrow> 55296 \<le> c \<and> c \<le> 57343"

definition utf8_char :: "codepoint \<Rightarrow> bytes" where
  "utf8_char c =
     (if c < 128 then [c]
      else if c < 2048 then [192 + c div 64, 128 + c mod 64]
      else if c < 65536 then [224 + c div 4096, 128 + (c div 64) mod 64, 128 + c mod 64]
      else [240 + c div 262144, 128 + (c div 4096) mod 64, 128 + (c div 64) mod 64,
            128 + c mod 64])"

definition hex_digit :: "nat \<Rightarrow> codepoint" where
  "hex_digit n = (if n < 10 then 48 + n else 87 + n)"

definition hex4 :: "nat \<Rightarrow> str" where
  "hex4 c =
     [hex_digit ((c div 4096) mod 16), hex_digit ((c div 256) mod 16),
      hex_digit ((c div 16) mod 16), hex_digit (c mod 16)]"

definition encode_utf8 :: "str \<Rightarrow> py_error + bytes" where
  "encode_utf8 s =
     (let start = length (takeWhile (\<lambda>c. \<not> is_surrogate c) s);
          run = takeWhile is_surrogate (drop start s)
      in case run of
           [] \<Rightarrow> Inr (concat (map utf8_char s))
         | [c] \<Rightarrow>
             Inl (UnicodeEncodeError
               (39 # lit ''utf-8'' @ 39 # lit '' codec can'' @ 39 # lit ''t encode character ''
                @ 39 # 92 # lit ''u'' @ hex4 c @ 39 # lit '' in position '' @ decimal start
                @ lit '': surrogates not allowed''))
         | _ \<Rightarrow>
             Inl (UnicodeEncodeError
               (39 # lit ''utf-8'' @ 39 # lit '' codec can'' @ 39 # lit ''t encode characters''
                @ lit '' in position '' @ decimal start @ lit ''-''
                @ decimal (start + length run - 1) @ lit '': surrogates not allowed'')))"

text \<open>
  \<open>generate_content\<close> is called with the list \<open>[prompt, image_data]\<close> by
  \<open>analyze_image\<close> and with the prompt alone by \<open>generate_outfit_combinations\<close>.
\<close>

datatype 'p request = PromptAndImage str 'p | PromptOnly str

datatype generative_model = GenerativeModel str

text \<open>The calls of the Streamlit display functions, in the order they are made.\<close>

datatype 'f ui_event =
    StTitle str
  | StSidebarTitle str
  | StHeader str
  | StSubheader str
  | StImage 'f str
  | StSpinner str
  | StExpander str
  | StMarkdown str
  | StMarkdownHtml str
  | StError str
  | StWarning str
  | StSuccess str
  | StDownloadButton str bytes str str

text \<open>
  The libraries and the hosted model are parameters of the program. \<open>dotenv_values\<close>
  reads the variables of the \<open>.env\<close> file that \<open>find_dotenv\<close> finds on the disk;
  \<open>image_open\<close> is \<open>Image.open\<close>; \<open>generate_content\<close> is the hosted model, whose
  reply may depend on the number of calls made before and whose \<open>text\<close> property may
  raise; \<open>json_loads\<close> is \<open>json.loads\<close>; \<open>py_repr\<close> is \<open>repr\<close>, which is also
  \<open>str\<close> on every value that is not a text.
\<close>

record ('f, 'p) env =
  dotenv_values :: "(str \<rightharpoonup> str) \<Rightarrow> (str \<rightharpoonup> str)"
  image_open :: "'f \<Rightarrow> py_error + 'p"
  generate_content :: "generative_model \<Rightarrow> nat \<Rightarrow> 'p request \<Rightarrow> py_error + (py_error + str)"
  json_loads :: "str \<Rightarrow> py_error + json"
  py_repr :: "json \<Rightarrow> str"

text \<open>
  Everything the program can read or change: the process environment, the files on the
  disk, the key given to \<open>genai.configure\<close>, \<open>st.session_state\<close>, what has been shown
  to the user, and the calls sent to the hosted model.
\<close>

record ('f, 'p) world =
  environ :: "str \<rightharpoonup> str"
  disk :: "str \<rightharpoonup> str"
  genai_api_key :: "str option"
  session_state :: "str \<rightharpoonup> json list"
  ui :: "'f ui_event list"
  calls :: "(generative_model \<times> 'p request) list"

definition render :: "'f ui_event \<Rightarrow> ('f, 'p) world \<Rightarrow> ('f, 'p) world" where
  "render ev w = w\<lparr>ui := ui w @ [ev]\<rparr>"

definition st_error :: "str \<Rightarrow> ('f, 'p) world \<Rightarrow> ('f, 'p) world" where
  "st_error msg w = render (StError msg) w"

definition send :: "generative_model \<Rightarrow> 'p request \<Rightarrow> ('f, 'p) world \<Rightarrow> ('f, 'p) world" where
  "send m req w = w\<lparr>calls := calls w @ [(m, req)]\<rparr>"

section \<open>\<open>analyze_image\<close>\<close>

definition analyze_prompt :: str where
  \<open>analyze_prompt = lit ''\<newline>            Analyze the given image and identify each piece of clothing.\<newline>            For each item, provide a description, category, colors, and style.\<newline>            Ensure the output is a valid JSON array of objects with this structure:\<newline>            [{"description": "", "category": "", "colors": [], "style": [], "gender_type": "", "suitable_weather": "", "material": "", "occasion": ""}]\<newline>            Socks arent undergarments.\<newline>            Only output the JSON array. Do not include any extra text or formatting outside the JSON.\<newline>        ''\<close>

text \<open>
  Lines 21 to 62. The result is \<open>None\<close> or the list; every exception is caught inside
  (\<open>JSONDecodeError\<close> by the inner handler, every other one by the outer handler).
\<close>

definition analyze_image ::
  "('f, 'p) env \<Rightarrow> generative_model \<Rightarrow> 'f \<Rightarrow> ('f, 'p) world \<Rightarrow> json list option \<times> ('f, 'p) world"
where
  "analyze_image E model image_file w =
     (case image_open E image_file of
        Inl e \<Rightarrow> (None, st_error (lit ''Error analyzing image: '' @ message e) w)
      | Inr image_data \<Rightarrow>
          (let req = PromptAndImage analyze_prompt image_data;
               w1 = send model req w
           in case generate_content E model (length (calls w)) req of
                Inl e \<Rightarrow> (None, st_error (lit ''Error analyzing image: '' @ message e) w1)
              | Inr response \<Rightarrow>
                  (case response of
                     Inl e \<Rightarrow> (None, st_error (lit ''Error analyzing image: '' @ message e) w1)
                   | Inr text \<Rightarrow>
                       (let raw_response = strip text
                        in case re_search json_array_pattern raw_response of
                             None \<Rightarrow>
                               (None, st_error (lit ''Failed to extract JSON from the response. Please check the format.'') w1)
                           | Some cleaned_json \<Rightarrow>
                               (case json_loads E cleaned_json of
                                  Inr json_response \<Rightarrow>
                                    (case json_response of
                                       JArr xs \<Rightarrow> (Some xs, w1)
                                     | _ \<Rightarrow> (None, st_error (lit ''The response should be an array of objects.'') w1))
                                | Inl (JSONDecodeError m) \<Rightarrow>
                                    (None, st_error (lit ''Error parsing JSON from the cleaned response: '' @ m) w1)
                                | Inl e \<Rightarrow>
                                    (None, st_error (lit ''Error analyzing image: '' @ message e) w1))))))"

section \<open>\<open>generate_outfit_combinations\<close>\<close>

definition outfit_prompt :: "('f, 'p) env \<Rightarrow> json list \<Rightarrow> str" where
  "outfit_prompt E catalog =
     lit ''Given the following clothing catalog, generate at least three distinct outfit combinations. Provide a short description for each outfit.\<newline>\<newline>        Catalog: ''
     @ py_repr E (JArr catalog) @ lit ''\<newline>    ''"

text \<open>Lines 66 to 76. The reply's text is returned as it is.\<close>

definition generate_outfit_combinations ::
  "('f, 'p) env \<Rightarrow> generative_model \<Rightarrow> json list \<Rightarrow> ('f, 'p) world \<Rightarrow> str option \<times> ('f, 'p) world"
where
  "generate_outfit_combinations E model catalog w =
     (let req = PromptOnly (outfit_prompt E catalog);
          w1 = send model req w
      in case generate_content E model (length (calls w)) req of
           Inl e \<Rightarrow> (None, st_error (lit ''Error generating outfit combinations: '' @ message e) w1)
         | Inr response \<Rightarrow>
             (case response of
                Inl e \<Rightarrow> (None, st_error (lit ''Error generating outfit combinations: '' @ message e) w1)
              | Inr text \<Rightarrow> (Some text, w1)))"

section \<open>Reading a catalog item\<close>

definition type_name :: "json \<Rightarrow> str" where
  "type_name v =
     (case v of
        JNull \<Rightarrow> lit ''NoneType''
      | JBool b \<Rightarrow> lit ''bool''
      | JInt i \<Rightarrow> lit ''int''
      | JFloat x \<Rightarrow> lit ''float''
      | JStr s \<Rightarrow> lit ''str''
      | JArr vs \<Rightarrow> lit ''list''
      | JObj d \<Rightarrow> lit ''dict'')"

text \<open>
  \<open>item.get(key, default)\<close>: only a \<open>dict\<close> has the method; on any other value the
  attribute lookup raises. Code point 39 is the apostrophe.
\<close>

fun item_get :: "json \<Rightarrow> str \<Rightarrow> json \<Rightarrow> py_error + json" where
  "item_get (JObj d) key dflt = Inr (case map_of d key of Some v \<Rightarrow> v | None \<Rightarrow> dflt)"
| "item_get v key dflt =
     Inl (AttributeError
       (39 # type_name v @ 39 # lit '' object has no attribute '' @ 39 # lit ''get'' @ [39]))"

text \<open>A value inside an f-string: a text stands for itself, any other value for its \<open>repr\<close>.\<close>

definition fmt :: "('f, 'p) env \<Rightarrow> json \<Rightarrow> str" where
  "fmt E v = (case v of JStr s \<Rightarrow> s | _ \<Rightarrow> py_repr E v)"

text \<open>
  \<open>', '.join(v)\<close>: a list must hold texts only, a text is joined character by
  character, a \<open>dict\<close> gives its keys, and nothing else can be iterated.
\<close>

fun str_items :: "json list \<Rightarrow> nat \<Rightarrow> py_error + str list" where
  "str_items [] i = Inr []"
| "str_items (JStr s # vs) i =
     (case str_items vs (Suc i) of Inl e \<Rightarrow> Inl e | Inr ss \<Rightarrow> Inr (s # ss))"
| "str_items (v # vs) i =
     Inl (TypeError
       (lit ''sequence item '' @ decimal i @ lit '': expected str instance, '' @ type_name v
        @ lit '' found''))"

definition comma_join :: "json \<Rightarrow> py_error + str" where
  "comma_join v =
     (case v of
        JStr s \<Rightarrow> Inr (join (lit '', '') (map (\<lambda>c. [c]) s))
      | JArr vs \<Rightarrow>
          (case str_items vs 0 of Inl e \<Rightarrow> Inl e | Inr ss \<Rightarrow> Inr (join (lit '', '') ss))
      | JObj d \<Rightarrow> Inr (join (lit '', '') (map fst d))
      | _ \<Rightarrow> Inl (TypeError (lit ''can only join an iterable'')))"

text \<open>
  \<open>field_text\<close> is \<open>item.get(key, 'N/A')\<close> inside an f-string, \<open>field_joined\<close> is
  \<open>', '.join(item.get(key, ['N/A']))\<close>.
\<close>

definition field_text :: "('f, 'p) env \<Rightarrow> json \<Rightarrow> str \<Rightarrow> py_error + str" where
  "field_text E item key =
     (case item_get item key (JStr (lit ''N/A'')) of Inl e \<Rightarrow> Inl e | Inr v \<Rightarrow> Inr (fmt E v))"

definition field_joined :: "json \<Rightarrow> str \<Rightarrow> py_error + str" where
  "field_joined item key =
     (case item_get item key (JArr [JStr (lit ''N/A'')]) of
        Inl e \<Rightarrow> Inl e
      | Inr v \<Rightarrow> comma_join v)"

definition framed :: "str \<Rightarrow> py_error + str \<Rightarrow> str \<Rightarrow> py_error + str" where
  "framed before r after =
     (case r of Inl e \<Rightarrow> Inl e | Inr t \<Rightarrow> Inr (before @ t @ after))"

definition shown :: "(str \<Rightarrow> 'f ui_event) \<Rightarrow> py_error + str \<Rightarrow> py_error + 'f ui_event" where
  "shown widget r = (case r of Inl e \<Rightarrow> Inl e | Inr t \<Rightarrow> Inr (widget t))"

text \<open>
  Statements run in order; the first one that raises ends the run, and what the earlier
  ones produced stays.
\<close>

fun emit :: "(py_error + 'a) list \<Rightarrow> py_error option \<times> 'a list" where
  "emit [] = (None, [])"
| "emit (Inl e # rest) = (Some e, [])"
| "emit (Inr x # rest) = (case emit rest of (r, xs) \<Rightarrow> (r, x # xs))"

text \<open>Lines 117 to 125: one catalog item on the Dashboard page.\<close>

definition display_item :: "('f, 'p) env \<Rightarrow> json \<Rightarrow> py_error option \<times> 'f ui_event list" where
  "display_item E item =
     emit
       [shown StExpander (framed (lit ''Item: '') (field_text E item (lit ''description'')) []),
        shown StMarkdown (framed (lit ''**Category:** '') (field_text E item (lit ''category'')) []),
        shown StMarkdown (framed (lit ''**Colors:** '') (field_joined item (lit ''colors'')) []),
        shown StMarkdown (framed (lit ''**Style:** '') (field_joined item (lit ''style'')) []),
        shown StMarkdown (framed (lit ''**Gender Type:** '') (field_text E item (lit ''gender_type'')) []),
        shown StMarkdown (framed (lit ''**Suitable Weather:** '') (field_text E item (lit ''suitable_weather'')) []),
        shown StMarkdown (framed (lit ''**Material:** '') (field_text E item (lit ''material'')) []),
        shown StMarkdown (framed (lit ''**Occasion:** '') (field_text E item (lit ''occasion'')) []),
        Inr (StMarkdown (lit ''---''))]"

fun display_catalog ::
  "('f, 'p) env \<Rightarrow> json list \<Rightarrow> ('f, 'p) world \<Rightarrow> py_error option \<times> ('f, 'p) world"
where
  "display_catalog E [] w = (None, w)"
| "display_catalog E (item # rest) w =
     (case display_item E item of
        (Some e, evs) \<Rightarrow> (Some e, w\<lparr>ui := ui w @ evs\<rparr>)
      | (None, evs) \<Rightarrow> display_catalog E rest (w\<lparr>ui := ui w @ evs\<rparr>))"

text \<open>Lines 151 to 159: the text of one catalog item in the report.\<close>

definition report_item :: "('f, 'p) env \<Rightarrow> json \<Rightarrow> py_error option \<times> str list" where
  "report_item E item =
     emit
       [framed (lit ''Description: '') (field_text E item (lit ''description'')) [10],
        framed (lit ''Category: '') (field_text E item (lit ''category'')) [10],
        framed (lit ''Colors: '') (field_joined item (lit ''colors'')) [10],
        framed (lit ''Style: '') (field_joined item (lit ''style'')) [10],
        framed (lit ''Gender Type: '') (field_text E item (lit ''gender_type'')) [10],
        framed (lit ''Suitable Weather: '') (field_text E item (lit ''suitable_weather'')) [10],
        framed (lit ''Material: '') (field_text E item (lit ''material'')) [10],
        framed (lit ''Occasion: '') (field_text E item (lit ''occasion'')) [10],
        Inr (replicate 30 45 @ [10])]"

text \<open>Lines 149 to 159: \<open>catalog_text\<close> grows item by item until an item raises.\<close>

fun report_catalog :: "('f, 'p) env \<Rightarrow> json list \<Rightarrow> str \<Rightarrow> py_error + str" where
  "report_catalog E [] catalog_text = Inr catalog_text"
| "report_catalog E (item # rest) catalog_text =
     (case report_item E item of
        (Some e, parts) \<Rightarrow> Inl e
      | (None, parts) \<Rightarrow> report_catalog E rest (catalog_text @ concat parts))"

section \<open>The module's top level\<close>

text \<open>
  Lines 10 to 18. \<open>load_dotenv(find_dotenv(), override=True)\<close> writes the variables of
  the \<open>.env\<close> file over the process environment. A key that is unset or empty is
  falsy: the error is shown and \<open>st.stop()\<close> ends the run.
\<close>

record globals =
  gemini_api_key :: str
  model :: generative_model

definition gemini_model_name :: str where
  "gemini_model_name = lit ''gemini-1.5-flash''"

definition module_top ::
  "('f, 'p) env \<Rightarrow> ('f, 'p) world \<Rightarrow> globals option \<times> ('f, 'p) world"
where
  "module_top E w =
     (let w1 = w\<lparr>environ := environ w ++ dotenv_values E (disk w)\<rparr>
      in case environ w1 (lit ''GOOGLE_API_KEY'') of
           None \<Rightarrow>
             (None, st_error (lit ''GEMINI_API_KEY is not set in the environment variables.'') w1)
         | Some key \<Rightarrow>
             if key = []
             then (None, st_error (lit ''GEMINI_API_KEY is not set in the environment variables.'') w1)
             else (Some \<lparr>gemini_api_key = key, model = GenerativeModel gemini_model_name\<rparr>,
                   w1\<lparr>genai_api_key := Some key\<rparr>))"

section \<open>\<open>main\<close>\<close>

text \<open>
  What the input widgets return in one run of the script: the page chosen in the sidebar,
  the image source, the files of \<open>st.file_uploader\<close> and the picture of
  \<open>st.camera_input\<close>.
\<close>

record 'f inputs =
  page :: str
  image_source :: str
  uploaded_files :: "'f list"
  camera_picture :: "'f option"

text \<open>
  Lines 93 to 99. An entry of \<open>uploaded_images\<close> is \<open>Some\<close> of a file; the uploader
  returns files only, so the test of line 105 holds for each of its entries.
\<close>

definition uploaded_images_of :: "'f inputs \<Rightarrow> 'f option list option" where
  "uploaded_images_of inp =
     (if image_source inp = lit ''Upload'' then Some (map Some (uploaded_files inp))
      else if image_source inp = lit ''Take a Picture''
      then (case camera_picture inp of None \<Rightarrow> None | Some f \<Rightarrow> Some [Some f])
      else None)"

text \<open>Lines 104 to 112: the loop over the images, with \<open>all_catalogs\<close> as accumulator.\<close>

fun analyze_all ::
  "('f, 'p) env \<Rightarrow> generative_model \<Rightarrow> 'f option list \<Rightarrow> json list \<Rightarrow> ('f, 'p) world
     \<Rightarrow> json list \<times> ('f, 'p) world"
where
  "analyze_all E m [] all_catalogs w = (all_catalogs, w)"
| "analyze_all E m (None # rest) all_catalogs w = analyze_all E m rest all_catalogs w"
| "analyze_all E m (Some uploaded_image # rest) all_catalogs w =
     (case analyze_image E m uploaded_image
             (render (StSpinner (lit ''Analyzing Image...''))
               (render (StImage uploaded_image (lit ''Uploaded Wardrobe Image'')) w)) of
        (Some (x # xs), w') \<Rightarrow> analyze_all E m rest (all_catalogs @ x # xs) w'
      | (_, w') \<Rightarrow>
          analyze_all E m rest all_catalogs
            (st_error (lit ''Could not get analysis, please try again for one of the images.'') w'))"

text \<open>Lines 87 to 129. The result is the exception that left \<open>main\<close>, if any.\<close>

definition dashboard ::
  "('f, 'p) env \<Rightarrow> generative_model \<Rightarrow> 'f inputs \<Rightarrow> ('f, 'p) world
     \<Rightarrow> py_error option \<times> ('f, 'p) world"
where
  "dashboard E m inp w =
     (let w1 = render (StHeader (lit ''Wardrobe Dashboard'')) w
      in case uploaded_images_of inp of
           None \<Rightarrow> (None, w1)
         | Some [] \<Rightarrow> (None, w1)
         | Some uploaded_images \<Rightarrow>
             (case analyze_all E m uploaded_images [] w1 of
                ([], w2) \<Rightarrow>
                  (None, st_error (lit ''Could not get analysis, please try again for all images.'') w2)
              | (all_catalogs, w2) \<Rightarrow>
                  (case display_catalog E all_catalogs
                          (render (StSubheader (lit ''Clothing Catalog:''))
                            (w2\<lparr>session_state := (session_state w2)(lit ''catalog'' \<mapsto> all_catalogs)\<rparr>)) of
                     (Some e, w3) \<Rightarrow> (Some e, w3)
                   | (None, w3) \<Rightarrow> (None, render (StSuccess (lit ''Image Analysis Complete!'')) w3))))"

definition next_step_html :: str where
  \<open>next_step_html = lit ''\<newline>                        <a href="https://ai-fashion-assistant.streamlit.app/" target="_blank">\<newline>                            <button style="background-color:#4CAF50; color:white; padding:10px 20px; border:none; border-radius:5px; cursor:pointer; text-decoration: none;">\<newline>                                Go to Next Step\<newline>                            </button>\<newline>                         </a>\<newline>                        ''\<close>

text \<open>
  Lines 132 to 185. The arguments of \<open>st.download_button\<close> are evaluated before the
  call, so an encoding error leaves \<open>main\<close> before the button is shown.
\<close>

definition outfit_page ::
  "('f, 'p) env \<Rightarrow> generative_model \<Rightarrow> ('f, 'p) world \<Rightarrow> py_error option \<times> ('f, 'p) world"
where
  "outfit_page E m w =
     (let w1 = render (StHeader (lit ''Outfit Combinations'')) w
      in case session_state w1 (lit ''catalog'') of
           None \<Rightarrow>
             (None, render (StWarning (lit ''Please upload an image in the dashboard page to generate outfit combinations.'')) w1)
         | Some catalog \<Rightarrow>
             (case generate_outfit_combinations E m catalog
                     (render (StSpinner (lit ''Generating Outfit Combinations...'')) w1) of
                (Some (c # cs), w2) \<Rightarrow>
                  (let outfit_combinations = c # cs;
                       w3 = render (StMarkdown outfit_combinations)
                              (render (StSubheader (lit ''Outfit Suggestions:'')) w2)
                   in case report_catalog E catalog [] of
                        Inl e \<Rightarrow> (Some e, w3)
                      | Inr catalog_text \<Rightarrow>
                          (let combined_text =
                                 lit ''Clothing Catalog:\<newline>'' @ catalog_text
                                 @ lit ''\<newline>\<newline>Outfit Combinations:\<newline>'' @ outfit_combinations
                           in case encode_utf8 combined_text of
                                Inl e \<Rightarrow> (Some e, w3)
                              | Inr data \<Rightarrow>
                                  (None,
                                   render (StMarkdownHtml next_step_html)
                                     (render (StDownloadButton (lit ''Download Catalog and Outfits'')
                                                data (lit ''wardrobe_report.txt'') (lit ''text/plain''))
                                        w3))))
              | (_, w2) \<Rightarrow> (None, st_error (lit ''Could not generate outfit combinations'') w2)))"

text \<open>Lines 79 to 185.\<close>

definition main ::
  "('f, 'p) env \<Rightarrow> generative_model \<Rightarrow> 'f inputs \<Rightarrow> ('f, 'p) world
     \<Rightarrow> py_error option \<times> ('f, 'p) world"
where
  "main E m inp w =
     (let w1 = render (StSidebarTitle (lit ''Navigation''))
                 (render (StTitle (lit ''Wardrobe Styling App'')) w)
      in if page inp = lit ''Dashboard'' then dashboard E m inp w1
         else if page inp = lit ''Outfit Combinations'' then outfit_page E m w1
         else (None, w1))"

text \<open>
  One run of the script: the top level, then \<open>main\<close> with the global \<open>model\<close>.
\<close>

datatype outcome = Stopped | Finished | Uncaught py_error

definition script ::
  "('f, 'p) env \<Rightarrow> 'f inputs \<Rightarrow> ('f, 'p) world \<Rightarrow> outcome \<times> ('f, 'p) world"
where
  "script E inp w =
     (case module_top E w of
        (None, w1) \<Rightarrow> (Stopped, w1)
      | (Some g, w1) \<Rightarrow>
          (case main E (model g) inp w1 of
             (Some e, w2) \<Rightarrow> (Uncaught e, w2)
           | (None, w2) \<Rightarrow> (Finished, w2)))"

section \<open>What the pattern means\<close>

text \<open>
  The language of a sequence of pieces, to state what the matcher finds: a piece taken
  once stands for one character of its class, a starred piece for any run of them. A
  text holds a match when some part of it is in the language.
\<close>

fun lang :: "piece list \<Rightarrow> str \<Rightarrow> bool" where
  "lang [] s \<longleftrightarrow> s = []"
| "lang (One k # ps) s \<longleftrightarrow> (\<exists>c cs. s = c # cs \<and> in_cls k c \<and> lang ps cs)"
| "lang (Star k # ps) s \<longleftrightarrow> (\<exists>a b. s = a @ b \<and> list_all (in_cls k) a \<and> lang ps b)"

definition holds_match :: "piece list \<Rightarrow> str \<Rightarrow> bool" where
  "holds_match ps s \<longleftrightarrow> (\<exists>a b c. s = a @ b @ c \<and> lang ps b)"

text \<open>A pattern is stable under a character when one more such character at the end of
  a text does not change what the matcher finds at its head.\<close>

definition stable :: "codepoint \<Rightarrow> piece list \<Rightarrow> bool" where
  "stable c ps \<longleftrightarrow> (\<forall>s. match_here ps (s @ [c]) = match_here ps s)"

section \<open>The calls of the loop, and what a run leaves alone\<close>

text \<open>
  What each call of \<open>analyze_image\<close> in the loop of lines 104 to 112 returned, in
  order; a result is usable when it is a list that is not empty (the test of line 109).
\<close>

fun analysis_results ::
  "('f, 'p) env \<Rightarrow> generative_model \<Rightarrow> 'f option list \<Rightarrow> ('f, 'p) world \<Rightarrow> json list option list"
where
  "analysis_results E m [] w = []"
| "analysis_results E m (None # rest) w = analysis_results E m rest w"
| "analysis_results E m (Some uploaded_image # rest) w =
     (case analyze_image E m uploaded_image
             (render (StSpinner (lit ''Analyzing Image...''))
               (render (StImage uploaded_image (lit ''Uploaded Wardrobe Image'')) w)) of
        (Some (x # xs), w') \<Rightarrow> Some (x # xs) # analysis_results E m rest w'
      | (r, w') \<Rightarrow>
          r # analysis_results E m rest
            (st_error (lit ''Could not get analysis, please try again for one of the images.'') w'))"

definition usable :: "json list option \<Rightarrow> bool" where
  "usable r \<longleftrightarrow> (case r of Some (x # xs) \<Rightarrow> True | _ \<Rightarrow> False)"

definition untouched :: "('f, 'p) world \<Rightarrow> ('f, 'p) world \<Rightarrow> bool" where
  "untouched w w' \<longleftrightarrow>
     disk w' = disk w \<and> environ w' = environ w \<and> genai_api_key w' = genai_api_key w"

definition calls_to :: "generative_model \<Rightarrow> ('f, 'p) world \<Rightarrow> ('f, 'p) world \<Rightarrow> bool" where
  "calls_to m w w' \<longleftrightarrow> (\<exists>cs. calls w' = calls w @ cs \<and> list_all (\<lambda>c. fst c = m) cs)"

section \<open>An example environment\<close>

text \<open>
  A hosted model that answers every request with the same text, an \<open>Image.open\<close> that
  accepts every file, and a \<open>json.loads\<close> that knows two documents.
\<close>

definition example_loads :: "str \<Rightarrow> py_error + json" where
  \<open>example_loads s =
     (if s = lit ''[{}, 1, {"size": null}]''
      then Inr (JArr [JObj [], JInt 1, JObj [(lit ''size'', JNull)]])
      else if s = lit ''[{"a": {}}]'' then Inr (JArr [JObj [(lit ''a'', JObj [])]])
      else Inl (JSONDecodeError (lit ''Expecting value: line 1 column 1 (char 0)'')))\<close>

definition example_env :: "str \<Rightarrow> (nat, nat) env" where
  "example_env reply =
     \<lparr>dotenv_values = (\<lambda>files. Map.empty),
      image_open = (\<lambda>f. Inr f),
      generate_content = (\<lambda>m n req. Inr (Inr reply)),
      json_loads = example_loads,
      py_repr = (\<lambda>v. lit ''[]'')\<rparr>"

definition example_world :: "(nat, nat) world" where
  "example_world =
     \<lparr>environ = Map.empty, disk = Map.empty, genai_api_key = None,
      session_state = Map.empty, ui = [], calls = []\<rparr>"

section \<open>The fields of a catalog record\<close>

definition catalog_fields :: "str list" where
  "catalog_fields =
     [lit ''description'', lit ''category'', lit ''colors'', lit ''style'', lit ''gender_type'',
      lit ''suitable_weather'', lit ''material'', lit ''occasion'']"

text \<open>
  The JSON text of a one-element array holding an object with the given keys, each with
  an empty value: \<open>[]\<close> for a key marked as a list, \<open>""\<close> otherwise. Code point 34
  is the double quote.
\<close>

definition structure_of :: "(str \<times> bool) list \<Rightarrow> str" where
  "structure_of kinds =
     lit ''[{''
     @ join (lit '', '')
         (map (\<lambda>(key, is_list). 34 # key @ 34 # lit '': '' @ (if is_list then lit ''[]'' else [34, 34]))
            kinds)
     @ lit ''}]''"

definition requested_fields :: "(str \<times> bool) list" where
  "requested_fields =
     [(lit ''description'', False), (lit ''category'', False), (lit ''colors'', True),
      (lit ''style'', True), (lit ''gender_type'', False), (lit ''suitable_weather'', False),
      (lit ''material'', False), (lit ''occasion'', False)]"

definition example_inputs :: "str \<Rightarrow> nat list \<Rightarrow> nat inputs" where
  "example_inputs p fs =
     \<lparr>page = p, image_source = lit ''Upload'', uploaded_files = fs, camera_picture = None\<rparr>"

section \<open>The matcher finds exactly the matches of the pattern\<close>

lemma lang_Star_skip: "lang ps s \<Longrightarrow> lang (Star k # ps) s"
  by (auto intro: exI [of _ "[]"])

lemma lang_Star_step:
  assumes "in_cls k c" and "lang (Star k # ps) s"
  shows "lang (Star k # ps) (c # s)"
proof -
  from assms(2) obtain a b where "s = a @ b" "list_all (in_cls k) a" "lang ps b" by auto
  with assms(1) have "c # s = (c # a) @ b \<and> list_all (in_cls k) (c # a) \<and> lang ps b" by simp
  then show ?thesis unfolding lang.simps by blast
qed

lemma lang_Star_cases:
  assumes "lang (Star k # ps) s"
  shows "lang ps s \<or> (\<exists>c t. s = c # t \<and> in_cls k c \<and> lang (Star k # ps) t)"
proof -
  from assms obtain a b where ab: "s = a @ b" "list_all (in_cls k) a" "lang ps b" by auto
  show ?thesis
  proof (cases a)
    case Nil
    with ab show ?thesis by simp
  next
    case (Cons c a')
    with ab have "s = c # (a' @ b)" "in_cls k c" "list_all (in_cls k) a'" by simp_all
    with ab(3) show ?thesis by auto
  qed
qed

lemma match_here_sound:
  "match_here ps s = Some n \<Longrightarrow> n \<le> length s \<and> lang ps (take n s)"
proof (induction ps s arbitrary: n rule: match_here.induct)
  case (1 s)
  then show ?case by simp
next
  case (2 k ps)
  then show ?case by simp
next
  case (3 k ps c cs)
  then show ?case by (auto split: if_splits)
next
  case (4 k ps)
  then have "n \<le> length ([]::str) \<and> lang ps (take n [])" by simp
  then show ?case by (simp add: lang_Star_skip del: lang.simps)
next
  case (5 k ps c cs)
  show ?case
  proof (cases "in_cls k c \<and> match_here (Star k # ps) cs \<noteq> None")
    case True
    then obtain n' where n': "match_here (Star k # ps) cs = Some n'" by auto
    with True 5 have n: "n = Suc n'" by simp
    from "5.IH"(1) [OF _ n'] True have le: "n' \<le> length cs" and
      l: "lang (Star k # ps) (take n' cs)" by auto
    from lang_Star_step [OF _ l] True have "lang (Star k # ps) (take n (c # cs))"
      using n by simp
    then show ?thesis using le n by simp
  next
    case False
    then have m: "match_here ps (c # cs) = Some n" using 5(4)
      by (auto split: if_splits option.splits)
    have "n \<le> length (c # cs) \<and> lang ps (take n (c # cs))"
    proof (cases "in_cls k c")
      case True
      with False have "match_here (Star k # ps) cs = None" by simp
      from "5.IH"(2) [OF True this m] show ?thesis .
    next
      case False
      from "5.IH"(3) [OF False m] show ?thesis .
    qed
    then show ?thesis by (simp add: lang_Star_skip del: lang.simps)
  qed
qed

lemma match_here_complete:
  "lang ps (take n s) \<Longrightarrow> match_here ps s \<noteq> None"
proof (induction ps s arbitrary: n rule: match_here.induct)
  case (1 s)
  then show ?case by simp
next
  case (2 k ps)
  then show ?case by simp
next
  case (3 k ps c cs)
  from 3(2) obtain n' where "n = Suc n'" by (cases n) auto
  with 3(2) have "in_cls k c" "lang ps (take n' cs)" by auto
  with 3(1) show ?case by auto
next
  case (4 k ps)
  then have "lang ps (take 0 [])" by simp
  with 4(1) show ?case by simp
next
  case (5 k ps c cs)
  from lang_Star_cases [OF 5(4)] show ?case
  proof
    assume l: "lang ps (take n (c # cs))"
    show ?thesis
    proof (cases "in_cls k c")
      case True
      show ?thesis
      proof (cases "match_here (Star k # ps) cs")
        case None
        from "5.IH"(2) [OF True None l] True None show ?thesis by simp
      next
        case (Some n')
        with True show ?thesis by simp
      qed
    next
      case False
      from "5.IH"(3) [OF False l] False show ?thesis by simp
    qed
  next
    assume "\<exists>c' t. take n (c # cs) = c' # t \<and> in_cls k c' \<and> lang (Star k # ps) t"
    then obtain c' t where t: "take n (c # cs) = c' # t" "in_cls k c'" "lang (Star k # ps) t"
      by blast
    from t(1) obtain n' where n: "n = Suc n'" by (cases n) auto
    with t have "c' = c" "t = take n' cs" by simp_all
    with t have k: "in_cls k c" and "lang (Star k # ps) (take n' cs)" by simp_all
    from "5.IH"(1) [OF k this(2)] k show ?thesis by auto
  qed
qed

lemma re_search_Some:
  "re_search ps s = Some r \<Longrightarrow> \<exists>a c. s = a @ r @ c \<and> lang ps r"
proof (induction ps s rule: re_search.induct)
  case (1 ps)
  then obtain n where "match_here ps [] = Some n" and r: "r = []" by auto
  from match_here_sound [OF this(1)] r show ?case by simp
next
  case (2 ps c cs)
  show ?case
  proof (cases "match_here ps (c # cs)")
    case None
    with 2 obtain a c' where "cs = a @ r @ c'" "lang ps r" by auto
    then have "c # cs = (c # a) @ r @ c' \<and> lang ps r" by simp
    then show ?thesis by blast
  next
    case (Some n)
    with 2 have r: "r = take n (c # cs)" by simp
    from match_here_sound [OF Some] have "lang ps r" using r by simp
    moreover have "c # cs = [] @ r @ drop n (c # cs)" using r by simp
    ultimately show ?thesis by blast
  qed
qed

lemma re_search_None:
  "re_search ps s = None \<Longrightarrow> \<not> holds_match ps s"
proof (induction ps s rule: re_search.induct)
  case (1 ps)
  then have "match_here ps [] = None" by auto
  with match_here_complete [of ps 0 "[]"] have "\<not> lang ps []" by auto
  then show ?case by (auto simp: holds_match_def)
next
  case (2 ps c cs)
  then have none: "match_here ps (c # cs) = None" and rest: "\<not> holds_match ps cs"
    by (auto split: option.splits)
  show ?case
  proof
    assume "holds_match ps (c # cs)"
    then obtain a b d where abd: "c # cs = a @ b @ d" "lang ps b"
      by (auto simp: holds_match_def)
    show False
    proof (cases a)
      case Nil
      with abd have "take (length b) (c # cs) = b" by simp
      with abd(2) match_here_complete [of ps "length b" "c # cs"] none show False by simp
    next
      case (Cons x a')
      with abd have "cs = a' @ b @ d" by simp
      with abd(2) rest show False by (auto simp: holds_match_def)
    qed
  qed
qed

lemma re_search_None_iff: "re_search ps s = None \<longleftrightarrow> \<not> holds_match ps s"
proof
  assume "re_search ps s = None" then show "\<not> holds_match ps s" by (rule re_search_None)
next
  assume n: "\<not> holds_match ps s"
  show "re_search ps s = None"
  proof (cases "re_search ps s")
    case None then show ?thesis .
  next
    case (Some r)
    from re_search_Some [OF this] n show ?thesis by (auto simp: holds_match_def)
  qed
qed

section \<open>Literals, the language of the pattern, and \<open>analyze_image\<close> on a reply\<close>

lemma lit_eq_iff [simp]: "lit a = lit b \<longleftrightarrow> a = b"
  by (simp add: lit_def inj_map_eq_map [OF inj_of_char])

lemma lang_OneI: "in_cls k c \<Longrightarrow> lang ps cs \<Longrightarrow> lang (One k # ps) (c # cs)"
  by simp

lemma lang_StarI: "list_all (in_cls k) a \<Longrightarrow> lang ps b \<Longrightarrow> lang (Star k # ps) (a @ b)"
  by auto

lemma lang_json_array_pattern:
  "lang json_array_pattern b \<longleftrightarrow>
     (\<exists>ws1 mid ws2. b = 91 # ws1 @ 123 # mid @ 125 # ws2 @ [93]
        \<and> list_all isspace ws1 \<and> list_all isspace ws2)"
proof -
  have dot: "list_all (in_cls Dot) a" for a by (induction a) simp_all
  have sp: "list_all (in_cls Space) a = list_all isspace a" for a by (induction a) simp_all
  show ?thesis
  proof
    assume "lang json_array_pattern b"
    then show "\<exists>ws1 mid ws2. b = 91 # ws1 @ 123 # mid @ 125 # ws2 @ [93]
        \<and> list_all isspace ws1 \<and> list_all isspace ws2"
      unfolding json_array_pattern_def lang.simps by (auto simp: sp)
  next
    assume "\<exists>ws1 mid ws2. b = 91 # ws1 @ 123 # mid @ 125 # ws2 @ [93]
        \<and> list_all isspace ws1 \<and> list_all isspace ws2"
    then obtain ws1 mid ws2 where b: "b = 91 # ws1 @ 123 # mid @ 125 # ws2 @ [93]"
      and ws: "list_all isspace ws1" "list_all isspace ws2" by blast
    show "lang json_array_pattern b"
      unfolding json_array_pattern_def b
      by (intro lang_OneI lang_StarI) (simp_all add: dot sp ws)
  qed
qed

lemma analyze_image_on_reply:
  assumes "image_open E f = Inr d"
    and "generate_content E m (length (calls w)) (PromptAndImage analyze_prompt d) = Inr (Inr text)"
  shows "analyze_image E m f w =
     (let w1 = send m (PromptAndImage analyze_prompt d) w
      in case re_search json_array_pattern (strip text) of
           None \<Rightarrow>
             (None, st_error (lit ''Failed to extract JSON from the response. Please check the format.'') w1)
         | Some cleaned_json \<Rightarrow>
             (case json_loads E cleaned_json of
                Inr json_response \<Rightarrow>
                  (case json_response of
                     JArr xs \<Rightarrow> (Some xs, w1)
                   | _ \<Rightarrow> (None, st_error (lit ''The response should be an array of objects.'') w1))
              | Inl (JSONDecodeError msg) \<Rightarrow>
                  (None, st_error (lit ''Error parsing JSON from the cleaned response: '' @ msg) w1)
              | Inl e \<Rightarrow> (None, st_error (lit ''Error analyzing image: '' @ message e) w1)))"
  using assms by (simp add: analyze_image_def Let_def)

lemma example_match:
  \<open>re_search json_array_pattern (strip (lit ''Here: [{}, 1, {"size": null}] ''))
     = Some (lit ''[{}, 1, {"size": null}]'')\<close>
  by (simp add: json_array_pattern_def strip_def lit_def isspace_def)

section \<open>Stripping the text does not change what the search finds\<close>

lemma stable_Nil: "stable c []"
  by (simp add: stable_def)

lemma stable_One:
  assumes "stable c ps" and "\<not> in_cls k c"
  shows "stable c (One k # ps)"
  unfolding stable_def
proof
  fix s
  show "match_here (One k # ps) (s @ [c]) = match_here (One k # ps) s"
    using assms by (cases s) (simp_all add: stable_def)
qed

lemma stable_Star:
  assumes "stable c ps" and "match_here ps [] = None"
  shows "stable c (Star k # ps)"
  unfolding stable_def
proof
  fix s
  from assms(1) have p: "match_here ps (t @ [c]) = match_here ps t" for t
    by (simp add: stable_def)
  from p [of "[]"] assms(2) have e: "match_here ps [c] = None" by simp
  show "match_here (Star k # ps) (s @ [c]) = match_here (Star k # ps) s"
  proof (induction s)
    case Nil
    show ?case using assms(2) e by simp
  next
    case (Cons x xs)
    from p [of "x # xs"] have "match_here ps (x # xs @ [c]) = match_here ps (x # xs)" by simp
    with Cons show ?case by (simp split: option.splits)
  qed
qed

lemma isspace_not_bracket:
  "isspace c \<Longrightarrow> c \<noteq> 91 \<and> c \<noteq> 93 \<and> c \<noteq> 123 \<and> c \<noteq> 125"
  by (auto simp: isspace_def)

lemma stable_json_array_pattern:
  assumes "isspace c"
  shows "stable c json_array_pattern"
  unfolding json_array_pattern_def
  using isspace_not_bracket [OF assms]
  by (intro stable_One stable_Star stable_Nil) simp_all

lemma re_search_trailing_space:
  assumes "isspace c"
  shows "re_search json_array_pattern (s @ [c]) = re_search json_array_pattern s"
proof -
  from stable_json_array_pattern [OF assms]
  have st: "match_here json_array_pattern (t @ [c]) = match_here json_array_pattern t" for t
    by (simp add: stable_def)
  have e: "match_here json_array_pattern [] = None"
    by (simp add: json_array_pattern_def)
  show ?thesis
  proof (induction s)
    case Nil
    from st [of "[]"] e show ?case by simp
  next
    case (Cons x xs)
    from st [of "x # xs"]
    have m: "match_here json_array_pattern (x # xs @ [c]) = match_here json_array_pattern (x # xs)"
      by simp
    show ?case
    proof (cases "match_here json_array_pattern (x # xs)")
      case None
      with m Cons show ?thesis by simp
    next
      case (Some n)
      from match_here_sound [OF Some] have "n \<le> length (x # xs)" by simp
      then have "take n (x # xs @ [c]) = take n (x # xs)" by (cases n) simp_all
      with m Some show ?thesis by simp
    qed
  qed
qed

lemma re_search_trailing_spaces:
  "list_all isspace t \<Longrightarrow> re_search json_array_pattern (s @ t) = re_search json_array_pattern s"
proof (induction t arbitrary: s)
  case Nil
  show ?case by simp
next
  case (Cons c t)
  from Cons.prems have c: "isspace c" and t: "list_all isspace t" by simp_all
  have "re_search json_array_pattern (s @ c # t) = re_search json_array_pattern ((s @ [c]) @ t)"
    by simp
  also from Cons.IH [OF t] have "\<dots> = re_search json_array_pattern (s @ [c])" .
  also from c have "\<dots> = re_search json_array_pattern s" by (rule re_search_trailing_space)
  finally show ?case .
qed

lemma re_search_leading_spaces:
  "re_search json_array_pattern (dropWhile isspace s) = re_search json_array_pattern s"
proof (induction s)
  case Nil
  show ?case by simp
next
  case (Cons c cs)
  show ?case
  proof (cases "isspace c")
    case True
    with isspace_not_bracket [OF True]
    have "match_here json_array_pattern (c # cs) = None" by (simp add: json_array_pattern_def)
    with True Cons show ?thesis by simp
  next
    case False
    then show ?thesis by simp
  qed
qed

lemma rstrip_split:
  "\<exists>t. s = rev (dropWhile P (rev s)) @ t \<and> list_all P t"
proof -
  have "rev s = takeWhile P (rev s) @ dropWhile P (rev s)" by simp
  then have "s = rev (dropWhile P (rev s)) @ rev (takeWhile P (rev s))"
    by (metis rev_append rev_rev_ident)
  moreover have "list_all P (rev (takeWhile P (rev s)))"
    by (simp add: list_all_iff) (metis set_takeWhileD)
  ultimately show ?thesis by blast
qed

lemma re_search_strip:
  "re_search json_array_pattern (strip s) = re_search json_array_pattern s"
proof -
  let ?l = "dropWhile isspace s"
  from rstrip_split [of ?l isspace] obtain t where
    t: "?l = rev (dropWhile isspace (rev ?l)) @ t" "list_all isspace t" by blast
  have "re_search json_array_pattern (strip s)
          = re_search json_array_pattern (rev (dropWhile isspace (rev ?l)) @ t)"
    using re_search_trailing_spaces [OF t(2)] by (simp add: strip_def)
  also from t(1) have "\<dots> = re_search json_array_pattern ?l" by simp
  also have "\<dots> = re_search json_array_pattern s" by (rule re_search_leading_spaces)
  finally show ?thesis .
qed

section \<open>What a run changes\<close>

lemma untouched_refl [simp]: "untouched w w"
  by (simp add: untouched_def)

lemma untouched_trans: "untouched w w' \<Longrightarrow> untouched w' w'' \<Longrightarrow> untouched w w''"
  by (simp add: untouched_def)

lemma calls_to_refl [simp]: "calls_to m w w"
  by (simp add: calls_to_def)

lemma calls_to_trans: "calls_to m w w' \<Longrightarrow> calls_to m w' w'' \<Longrightarrow> calls_to m w w''"
  by (auto simp: calls_to_def)

lemma render_simps [simp]:
  "disk (render ev w) = disk w" "environ (render ev w) = environ w"
  "genai_api_key (render ev w) = genai_api_key w"
  "session_state (render ev w) = session_state w"
  "calls (render ev w) = calls w" "ui (render ev w) = ui w @ [ev]"
  by (simp_all add: render_def)

lemma st_error_simps [simp]:
  "disk (st_error msg w) = disk w" "environ (st_error msg w) = environ w"
  "genai_api_key (st_error msg w) = genai_api_key w"
  "session_state (st_error msg w) = session_state w"
  "calls (st_error msg w) = calls w" "ui (st_error msg w) = ui w @ [StError msg]"
  by (simp_all add: st_error_def)

lemma send_simps [simp]:
  "disk (send m r w) = disk w" "environ (send m r w) = environ w"
  "genai_api_key (send m r w) = genai_api_key w"
  "session_state (send m r w) = session_state w"
  "calls (send m r w) = calls w @ [(m, r)]" "ui (send m r w) = ui w"
  by (simp_all add: send_def)

lemma analyze_image_calls:
  "calls (snd (analyze_image E m f w)) =
     calls w @ (case image_open E f of Inl e \<Rightarrow> [] | Inr d \<Rightarrow> [(m, PromptAndImage analyze_prompt d)])"
  by (simp add: analyze_image_def Let_def split: sum.splits option.splits json.splits py_error.splits)

lemma analyze_image_frame:
  "untouched w (snd (analyze_image E m f w))"
  "session_state (snd (analyze_image E m f w)) = session_state w"
  "calls_to m w (snd (analyze_image E m f w))"
    apply (simp_all add: untouched_def analyze_image_def Let_def split: sum.splits option.splits json.splits py_error.splits)
  apply (simp add: calls_to_def analyze_image_calls split: sum.splits)
  done

lemma generate_outfit_combinations_calls:
  "calls (snd (generate_outfit_combinations E m c w)) = calls w @ [(m, PromptOnly (outfit_prompt E c))]"
  by (simp add: generate_outfit_combinations_def Let_def split: sum.splits)

lemma generate_outfit_combinations_frame:
  "untouched w (snd (generate_outfit_combinations E m c w))"
  "session_state (snd (generate_outfit_combinations E m c w)) = session_state w"
  "calls_to m w (snd (generate_outfit_combinations E m c w))"
  by (simp_all add: untouched_def calls_to_def generate_outfit_combinations_def Let_def
      split: sum.splits)

lemma analyze_all_Some:
  "analyze_all E m (Some f # rest) acc w =
     (case analyze_image E m f
             (render (StSpinner (lit ''Analyzing Image...''))
               (render (StImage f (lit ''Uploaded Wardrobe Image'')) w)) of
        (r, w') \<Rightarrow>
          if usable r then analyze_all E m rest (acc @ the r) w'
          else analyze_all E m rest acc
                 (st_error (lit ''Could not get analysis, please try again for one of the images.'') w'))"
  by (simp add: usable_def split: prod.splits option.splits list.splits)

lemma analysis_results_Some:
  "analysis_results E m (Some f # rest) w =
     (case analyze_image E m f
             (render (StSpinner (lit ''Analyzing Image...''))
               (render (StImage f (lit ''Uploaded Wardrobe Image'')) w)) of
        (r, w') \<Rightarrow>
          if usable r then r # analysis_results E m rest w'
          else r # analysis_results E m rest
                 (st_error (lit ''Could not get analysis, please try again for one of the images.'') w'))"
  by (simp add: usable_def split: prod.splits option.splits list.splits)

lemma analyze_all_frame:
  "untouched w (snd (analyze_all E m imgs acc w))
   \<and> session_state (snd (analyze_all E m imgs acc w)) = session_state w
   \<and> calls_to m w (snd (analyze_all E m imgs acc w))"
proof (induction imgs arbitrary: acc w)
  case Nil
  show ?case by simp
next
  case (Cons img rest)
  show ?case
  proof (cases img)
    case None
    with Cons show ?thesis by simp
  next
    case (Some f)
    let ?w0 = "render (StSpinner (lit ''Analyzing Image...''))
                 (render (StImage f (lit ''Uploaded Wardrobe Image'')) w)"
    obtain r w' where a: "analyze_image E m f ?w0 = (r, w')"
      by (cases "analyze_image E m f ?w0")
    from analyze_image_frame [where w = ?w0 and E = E and m = m and f = f] a
    have f: "untouched w w'" "session_state w' = session_state w" "calls_to m w w'"
      by (simp_all add: untouched_def calls_to_def)
    let ?e = "st_error (lit ''Could not get analysis, please try again for one of the images.'') w'"
    have fe: "untouched w ?e" "session_state ?e = session_state w" "calls_to m w ?e"
      using f by (simp_all add: untouched_def calls_to_def)
    show ?thesis
    proof (cases "usable r")
      case True
      with Cons.IH [of w' "acc @ the r"] f a Some show ?thesis
        by (auto simp: analyze_all_Some simp del: analyze_all.simps
            intro: untouched_trans calls_to_trans)
    next
      case False
      with Cons.IH [of ?e acc] fe a Some show ?thesis
        by (auto simp: analyze_all_Some simp del: analyze_all.simps
            intro: untouched_trans calls_to_trans)
    qed
  qed
qed

lemma analyze_all_results:
  "fst (analyze_all E m imgs acc w) =
     acc @ concat (map (case_option [] id) (analysis_results E m imgs w))"
proof (induction imgs arbitrary: acc w)
  case Nil
  show ?case by simp
next
  case (Cons img rest)
  show ?case
  proof (cases img)
    case None
    with Cons show ?thesis by simp
  next
    case (Some f)
    let ?w0 = "render (StSpinner (lit ''Analyzing Image...''))
                 (render (StImage f (lit ''Uploaded Wardrobe Image'')) w)"
    obtain r w' where a: "analyze_image E m f ?w0 = (r, w')"
      by (cases "analyze_image E m f ?w0")
    show ?thesis
    proof (cases "usable r")
      case True
      then have "case_option [] id r = the r"
        by (auto simp: usable_def split: option.splits)
      with True Cons.IH a Some show ?thesis
        by (simp add: analyze_all_Some analysis_results_Some
            del: analyze_all.simps analysis_results.simps)
    next
      case False
      then have "case_option [] id r = []"
        by (auto simp: usable_def split: option.splits list.splits)
      with False Cons.IH a Some show ?thesis
        by (simp add: analyze_all_Some analysis_results_Some
            del: analyze_all.simps analysis_results.simps)
    qed
  qed
qed

lemma concat_results_Nil:
  "concat (map (case_option [] id) rs) = [] \<longleftrightarrow> list_all (\<lambda>r. \<not> usable r) rs"
  by (induction rs) (auto simp: usable_def split: option.splits list.splits)

lemma display_catalog_frame:
  "untouched w (snd (display_catalog E items w))
   \<and> session_state (snd (display_catalog E items w)) = session_state w
   \<and> calls (snd (display_catalog E items w)) = calls w"
proof (induction items arbitrary: w)
  case Nil
  show ?case by simp
next
  case (Cons it rest)
  obtain r evs where d: "display_item E it = (r, evs)" by (cases "display_item E it")
  show ?case
  proof (cases r)
    case None
    with d Cons [of "w\<lparr>ui := ui w @ evs\<rparr>"] show ?thesis by (simp add: untouched_def)
  next
    case (Some e)
    with d show ?thesis by (simp add: untouched_def)
  qed
qed

text \<open>The Dashboard page, by what the loop over the images gives.\<close>

lemma dashboard_no_images:
  assumes "uploaded_images_of inp = None \<or> uploaded_images_of inp = Some []"
  shows "dashboard E m inp w = (None, render (StHeader (lit ''Wardrobe Dashboard'')) w)"
  using assms by (auto simp: dashboard_def Let_def)

lemma dashboard_nothing_usable:
  assumes "uploaded_images_of inp = Some imgs" and "imgs \<noteq> []"
    and "analyze_all E m imgs [] (render (StHeader (lit ''Wardrobe Dashboard'')) w) = ([], w2)"
  shows "dashboard E m inp w =
     (None, st_error (lit ''Could not get analysis, please try again for all images.'') w2)"
  using assms by (cases imgs) (simp_all add: dashboard_def Let_def)

lemma dashboard_stores:
  assumes "uploaded_images_of inp = Some imgs" and "imgs \<noteq> []"
    and "analyze_all E m imgs [] (render (StHeader (lit ''Wardrobe Dashboard'')) w) = (all_catalogs, w2)"
    and "all_catalogs \<noteq> []"
  shows "session_state (snd (dashboard E m inp w)) = (session_state w)(lit ''catalog'' \<mapsto> all_catalogs)"
proof -
  let ?w3 = "render (StSubheader (lit ''Clothing Catalog:''))
               (w2\<lparr>session_state := (session_state w2)(lit ''catalog'' \<mapsto> all_catalogs)\<rparr>)"
  from analyze_all_frame [of "render (StHeader (lit ''Wardrobe Dashboard'')) w" E m imgs "[]"] assms(3)
  have s2: "session_state w2 = session_state w" by simp
  obtain r w4 where d: "display_catalog E all_catalogs ?w3 = (r, w4)"
    by (cases "display_catalog E all_catalogs ?w3")
  from display_catalog_frame [of ?w3 E all_catalogs] d
  have "session_state w4 = (session_state w)(lit ''catalog'' \<mapsto> all_catalogs)"
    by (simp add: s2)
  moreover obtain x xs where "all_catalogs = x # xs" using assms(4) by (cases all_catalogs) auto
  moreover obtain i rest where "imgs = i # rest" using assms(2) by (cases imgs) auto
  ultimately show ?thesis using assms(1,3) d
    by (cases r) (simp_all add: dashboard_def Let_def)
qed

lemma dashboard_frame:
  "untouched w (snd (dashboard E m inp w)) \<and> calls_to m w (snd (dashboard E m inp w))"
proof (cases "uploaded_images_of inp = None \<or> uploaded_images_of inp = Some []")
  case True
  from dashboard_no_images [OF this, of E m w] show ?thesis by (simp add: untouched_def calls_to_def)
next
  case False
  then obtain imgs where imgs: "uploaded_images_of inp = Some imgs" "imgs \<noteq> []" by auto
  let ?w1 = "render (StHeader (lit ''Wardrobe Dashboard'')) w"
  obtain all_catalogs w2 where a: "analyze_all E m imgs [] ?w1 = (all_catalogs, w2)"
    by (cases "analyze_all E m imgs [] ?w1")
  from analyze_all_frame [of ?w1 E m imgs "[]"] a
  have f2: "untouched w w2" "calls_to m w w2" by (simp_all add: untouched_def calls_to_def)
  show ?thesis
  proof (cases all_catalogs)
    case Nil
    from dashboard_nothing_usable [OF imgs a [unfolded Nil]] f2 show ?thesis
      by (simp add: untouched_def calls_to_def)
  next
    case (Cons x xs)
    let ?w3 = "render (StSubheader (lit ''Clothing Catalog:''))
               (w2\<lparr>session_state := (session_state w2)(lit ''catalog'' \<mapsto> all_catalogs)\<rparr>)"
    obtain r w4 where d: "display_catalog E all_catalogs ?w3 = (r, w4)"
      by (cases "display_catalog E all_catalogs ?w3")
    from display_catalog_frame [of ?w3 E all_catalogs] d f2
    have f4: "untouched w w4" "calls_to m w w4" by (simp_all add: untouched_def calls_to_def)
    obtain i rest where "imgs = i # rest" using imgs(2) by (cases imgs) auto
    with imgs(1) a d Cons f4 show ?thesis
      by (cases r) (simp_all add: dashboard_def Let_def untouched_def calls_to_def)
  qed
qed

lemma outfit_page_no_catalog:
  assumes "session_state w (lit ''catalog'') = None"
  shows "outfit_page E m w =
     (None,
      render (StWarning (lit ''Please upload an image in the dashboard page to generate outfit combinations.''))
        (render (StHeader (lit ''Outfit Combinations'')) w))"
  using assms by (simp add: outfit_page_def Let_def)

lemma outfit_page_calls:
  assumes "session_state w (lit ''catalog'') = Some c"
  shows "calls (snd (outfit_page E m w)) = calls w @ [(m, PromptOnly (outfit_prompt E c))]"
proof -
  let ?w2 = "render (StSpinner (lit ''Generating Outfit Combinations...''))
               (render (StHeader (lit ''Outfit Combinations'')) w)"
  obtain r w3 where g: "generate_outfit_combinations E m c ?w2 = (r, w3)"
    by (cases "generate_outfit_combinations E m c ?w2")
  from generate_outfit_combinations_calls [of E m c ?w2] g
  have "calls w3 = calls w @ [(m, PromptOnly (outfit_prompt E c))]" by simp
  with assms g show ?thesis
    by (simp add: outfit_page_def Let_def split: option.splits list.splits sum.splits)
qed

lemma outfit_page_frame:
  "untouched w (snd (outfit_page E m w))
   \<and> session_state (snd (outfit_page E m w)) = session_state w
   \<and> calls_to m w (snd (outfit_page E m w))"
proof (cases "session_state w (lit ''catalog'')")
  case None
  from outfit_page_no_catalog [OF this, of E m] show ?thesis
    by (simp add: untouched_def calls_to_def)
next
  case (Some c)
  let ?w2 = "render (StSpinner (lit ''Generating Outfit Combinations...''))
               (render (StHeader (lit ''Outfit Combinations'')) w)"
  obtain r w3 where g: "generate_outfit_combinations E m c ?w2 = (r, w3)"
    by (cases "generate_outfit_combinations E m c ?w2")
  from generate_outfit_combinations_frame [where w = ?w2 and E = E and m = m and c = c] g
  have "untouched w w3" "session_state w3 = session_state w" "calls_to m w w3"
    by (simp_all add: untouched_def calls_to_def)
  with Some g show ?thesis
    by (simp add: outfit_page_def Let_def untouched_def calls_to_def
        split: option.splits list.splits sum.splits)
qed

lemma main_frame:
  "untouched w (snd (main E m inp w)) \<and> calls_to m w (snd (main E m inp w))"
proof -
  let ?w1 = "render (StSidebarTitle (lit ''Navigation''))
               (render (StTitle (lit ''Wardrobe Styling App'')) w)"
  have u: "untouched w ?w1" "calls_to m w ?w1" by (simp_all add: untouched_def calls_to_def)
  from dashboard_frame [of ?w1 E m inp] u
  have d: "untouched w (snd (dashboard E m inp ?w1)) \<and> calls_to m w (snd (dashboard E m inp ?w1))"
    by (auto intro: untouched_trans calls_to_trans)
  from outfit_page_frame [of ?w1 E m] u
  have p: "untouched w (snd (outfit_page E m ?w1)) \<and> calls_to m w (snd (outfit_page E m ?w1))"
    by (auto intro: untouched_trans calls_to_trans)
  from d p u show ?thesis by (simp add: main_def Let_def)
qed

lemma module_top_stops:
  assumes "(environ w ++ dotenv_values E (disk w)) (lit ''GOOGLE_API_KEY'') = None
           \<or> (environ w ++ dotenv_values E (disk w)) (lit ''GOOGLE_API_KEY'') = Some []"
  shows "module_top E w =
     (None,
      st_error (lit ''GEMINI_API_KEY is not set in the environment variables.'')
        (w\<lparr>environ := environ w ++ dotenv_values E (disk w)\<rparr>))"
  using assms by (auto simp: module_top_def Let_def split: option.splits)

lemma module_top_ready:
  assumes "(environ w ++ dotenv_values E (disk w)) (lit ''GOOGLE_API_KEY'') = Some key"
    and "key \<noteq> []"
  shows "module_top E w =
     (Some \<lparr>gemini_api_key = key, model = GenerativeModel gemini_model_name\<rparr>,
      w\<lparr>environ := environ w ++ dotenv_values E (disk w), genai_api_key := Some key\<rparr>)"
  using assms by (auto simp: module_top_def Let_def split: option.splits)

lemma module_top_frame:
  "disk (snd (module_top E w)) = disk w
   \<and> environ (snd (module_top E w)) = environ w ++ dotenv_values E (disk w)
   \<and> session_state (snd (module_top E w)) = session_state w
   \<and> calls (snd (module_top E w)) = calls w"
  by (simp add: module_top_def Let_def split: option.splits)

lemma module_top_model:
  "fst (module_top E w) = Some g \<Longrightarrow> model g = GenerativeModel gemini_model_name"
  by (auto simp: module_top_def Let_def split: option.splits if_splits)

lemma script_frame:
  "disk (snd (script E inp w)) = disk w
   \<and> environ (snd (script E inp w)) = environ w ++ dotenv_values E (disk w)
   \<and> calls_to (GenerativeModel gemini_model_name) w (snd (script E inp w))"
proof -
  obtain g w1 where t: "module_top E w = (g, w1)" by (cases "module_top E w")
  from module_top_frame [of E w] t
  have f1: "disk w1 = disk w" "environ w1 = environ w ++ dotenv_values E (disk w)"
    "calls w1 = calls w" by simp_all
  show ?thesis
  proof (cases g)
    case None
    with t f1 show ?thesis by (simp add: script_def calls_to_def)
  next
    case (Some gl)
    with module_top_model [of E w gl] t have m: "model gl = GenerativeModel gemini_model_name"
      by simp
    obtain r w2 where r: "main E (model gl) inp w1 = (r, w2)"
      by (cases "main E (model gl) inp w1")
    from main_frame [of w1 E "model gl" inp] r m f1
    have "disk w2 = disk w" "environ w2 = environ w ++ dotenv_values E (disk w)"
      "calls_to (GenerativeModel gemini_model_name) w w2"
      by (simp_all add: untouched_def calls_to_def)
    with t Some r show ?thesis by (cases r) (simp_all add: script_def)
  qed
qed

lemma present_key:
  "\<not> (x = None \<or> x = Some []) \<Longrightarrow> \<exists>key. x = Some key \<and> key \<noteq> []"
  by (cases x) auto

section \<open>The prompt and the display of an item\<close>

lemma structure_of_requested:
  \<open>structure_of requested_fields = lit ''[{"description": "", "category": "", "colors": [], "style": [], "gender_type": "", "suitable_weather": "", "material": "", "occasion": ""}]''\<close>
  by (simp add: structure_of_def requested_fields_def lit_def)

lemma analyze_prompt_structure:
  "\<exists>before after. analyze_prompt = before @ structure_of requested_fields @ after"
proof -
  have \<open>analyze_prompt =
      lit ''\<newline>            Analyze the given image and identify each piece of clothing.\<newline>            For each item, provide a description, category, colors, and style.\<newline>            Ensure the output is a valid JSON array of objects with this structure:\<newline>            ''
      @ structure_of requested_fields
      @ lit ''\<newline>            Socks arent undergarments.\<newline>            Only output the JSON array. Do not include any extra text or formatting outside the JSON.\<newline>        ''\<close>
    unfolding structure_of_requested analyze_prompt_def lit_def map_append [symmetric]
    by simp
  then show ?thesis by blast
qed

lemma lit_append: "lit (a @ b) = lit a @ lit b"
  by (simp add: lit_def)

lemma field_absent:
  "map_of d k = None \<Longrightarrow>
     field_text E (JObj d) k = Inr (lit ''N/A'') \<and> field_joined (JObj d) k = Inr (lit ''N/A'')"
  by (simp add: field_text_def field_joined_def fmt_def comma_join_def)

lemma fields_agree:
  assumes "list_all (\<lambda>k. map_of d k = map_of d' k) catalog_fields"
  shows "display_item E (JObj d) = display_item E (JObj d')"
    and "report_item E (JObj d) = report_item E (JObj d')"
  using assms
  by (simp_all add: catalog_fields_def display_item_def report_item_def field_text_def
      field_joined_def)

lemma display_item_empty:
  "display_item E (JObj []) =
     (None,
      [StExpander (lit ''Item: N/A''), StMarkdown (lit ''**Category:** N/A''),
       StMarkdown (lit ''**Colors:** N/A''), StMarkdown (lit ''**Style:** N/A''),
       StMarkdown (lit ''**Gender Type:** N/A''), StMarkdown (lit ''**Suitable Weather:** N/A''),
       StMarkdown (lit ''**Material:** N/A''), StMarkdown (lit ''**Occasion:** N/A''),
       StMarkdown (lit ''---'')])"
  by (simp add: display_item_def field_text_def field_joined_def fmt_def comma_join_def
      framed_def shown_def lit_append [symmetric])

lemma report_item_empty:
  "report_item E (JObj []) =
     (None,
      [lit ''Description: N/A\<newline>'', lit ''Category: N/A\<newline>'', lit ''Colors: N/A\<newline>'',
       lit ''Style: N/A\<newline>'', lit ''Gender Type: N/A\<newline>'',
       lit ''Suitable Weather: N/A\<newline>'', lit ''Material: N/A\<newline>'',
       lit ''Occasion: N/A\<newline>'', replicate 30 45 @ [10]])"
  by (simp add: report_item_def field_text_def field_joined_def fmt_def comma_join_def
      framed_def lit_def)

lemma each_field_read:
  "list_all (\<lambda>k. display_item E (JObj [(k, JStr (lit ''x''))]) \<noteq> display_item E (JObj [])
                \<and> report_item E (JObj [(k, JStr (lit ''x''))]) \<noteq> report_item E (JObj []))
     catalog_fields"
  by (simp add: catalog_fields_def display_item_def report_item_def field_text_def
      field_joined_def fmt_def comma_join_def framed_def shown_def lit_def)

section \<open>Runs of the example\<close>

lemma example_analyze_all:
  \<open>analyze_all (example_env (lit ''Here: [{}, 1, {"size": null}] '')) (GenerativeModel [])
       (the (uploaded_images_of (example_inputs (lit ''Dashboard'') [7]))) []
       (render (StHeader (lit ''Wardrobe Dashboard'')) example_world)
     = ([JObj [], JInt 1, JObj [(lit ''size'', JNull)]],
        send (GenerativeModel []) (PromptAndImage analyze_prompt 7)
          (render (StSpinner (lit ''Analyzing Image...''))
            (render (StImage 7 (lit ''Uploaded Wardrobe Image''))
              (render (StHeader (lit ''Wardrobe Dashboard'')) example_world))))\<close>
proof -
  let ?r = \<open>lit ''Here: [{}, 1, {"size": null}] ''\<close>
  let ?E = "example_env ?r"
  let ?m = "GenerativeModel []"
  let ?w0 = "render (StSpinner (lit ''Analyzing Image...''))
            (render (StImage 7 (lit ''Uploaded Wardrobe Image''))
              (render (StHeader (lit ''Wardrobe Dashboard'')) example_world))"
  have h1: "image_open ?E 7 = Inr 7" by (simp add: example_env_def)
  have h2: "generate_content ?E ?m (length (calls ?w0)) (PromptAndImage analyze_prompt 7)
              = Inr (Inr ?r)"
    by (simp add: example_env_def)
  have l: \<open>json_loads ?E (lit ''[{}, 1, {"size": null}]'')
             = Inr (JArr [JObj [], JInt 1, JObj [(lit ''size'', JNull)]])\<close>
    by (simp add: example_env_def example_loads_def)
  have u: "the (uploaded_images_of (example_inputs (lit ''Dashboard'') [7])) = [Some 7]"
    by (simp add: uploaded_images_of_def example_inputs_def)
  have "analyze_image ?E ?m 7 ?w0
          = (Some [JObj [], JInt 1, JObj [(lit ''size'', JNull)]],
             send ?m (PromptAndImage analyze_prompt 7) ?w0)"
    using analyze_image_on_reply [OF h1 h2] example_match l by (simp add: Let_def)
  then show ?thesis
    unfolding u by simp
qed

section \<open>The Dashboard page when no result is usable\<close>

lemma no_usable_iff: "\<not> list_ex usable rs \<longleftrightarrow> list_all (\<lambda>r. \<not> usable r) rs"
  by (induction rs) simp_all

lemma dashboard_nothing_stored:
  assumes "uploaded_images_of inp = Some imgs"
    and "list_all (\<lambda>r. \<not> usable r)
           (analysis_results E m imgs (render (StHeader (lit ''Wardrobe Dashboard'')) w))"
  shows "session_state (snd (dashboard E m inp w)) = session_state w"
    and "fst (dashboard E m inp w) = None"
    and "imgs \<noteq> [] \<Longrightarrow>
           last (ui (snd (dashboard E m inp w)))
             = StError (lit ''Could not get analysis, please try again for all images.'')"
proof -
  let ?w1 = "render (StHeader (lit ''Wardrobe Dashboard'')) w"
  obtain all_catalogs w2 where a: "analyze_all E m imgs [] ?w1 = (all_catalogs, w2)"
    by (cases "analyze_all E m imgs [] ?w1")
  from analyze_all_results [of E m imgs "[]" ?w1] a
  have "all_catalogs = concat (map (case_option [] id) (analysis_results E m imgs ?w1))"
    by simp
  also from assms(2) have "\<dots> = []" by (simp only: concat_results_Nil)
  finally have e: "all_catalogs = []" .
  from analyze_all_frame [of ?w1 E m imgs "[]"] a
  have s2: "session_state w2 = session_state w" by simp
  have both: "session_state (snd (dashboard E m inp w)) = session_state w
              \<and> fst (dashboard E m inp w) = None"
  proof (cases imgs)
    case Nil
    with assms(1) dashboard_no_images [of inp E m w] show ?thesis by simp
  next
    case (Cons i rest)
    then have "imgs \<noteq> []" by simp
    from dashboard_nothing_usable [OF assms(1) this a [unfolded e]] s2
    show ?thesis by simp
  qed
  from both show "session_state (snd (dashboard E m inp w)) = session_state w" by (rule conjunct1)
  from both show "fst (dashboard E m inp w) = None" by (rule conjunct2)
  show "last (ui (snd (dashboard E m inp w)))
          = StError (lit ''Could not get analysis, please try again for all images.'')"
    if "imgs \<noteq> []"
    using dashboard_nothing_usable [OF assms(1) that a [unfolded e]] by simp
qed

section \<open>The display and the report of a whole catalog\<close>

lemma display_catalog_all:
  "list_all (\<lambda>it. fst (display_item E it) = None) items \<Longrightarrow>
     display_catalog E items w =
       (None, w\<lparr>ui := ui w @ concat (map (\<lambda>it. snd (display_item E it)) items)\<rparr>)"
proof (induction items arbitrary: w)
  case Nil
  show ?case by simp
next
  case (Cons it rest)
  obtain evs where d: "display_item E it = (None, evs)"
    using Cons.prems by (cases "display_item E it") simp
  from Cons.prems have "list_all (\<lambda>it. fst (display_item E it) = None) rest" by simp
  from Cons.IH [OF this, of "w\<lparr>ui := ui w @ evs\<rparr>"] d show ?case by simp
qed

lemma display_catalog_raise:
  assumes "list_all (\<lambda>it. fst (display_item E it) = None) pre"
    and "fst (display_item E it) = Some e"
  shows "display_catalog E (pre @ it # post) w =
       (Some e,
        w\<lparr>ui := ui w @ concat (map (\<lambda>it. snd (display_item E it)) pre)
                   @ snd (display_item E it)\<rparr>)"
  using assms(1)
proof (induction pre arbitrary: w)
  case Nil
  obtain evs where d: "display_item E it = (Some e, evs)"
    using assms(2) by (cases "display_item E it") simp
  then show ?case by simp
next
  case (Cons p pre)
  obtain evs where d: "display_item E p = (None, evs)"
    using Cons.prems by (cases "display_item E p") simp
  from Cons.prems have "list_all (\<lambda>it. fst (display_item E it) = None) pre" by simp
  from Cons.IH [OF this, of "w\<lparr>ui := ui w @ evs\<rparr>"] d show ?case by simp
qed

lemma report_catalog_all:
  "list_all (\<lambda>it. fst (report_item E it) = None) items \<Longrightarrow>
     report_catalog E items catalog_text =
       Inr (catalog_text @ concat (map (\<lambda>it. concat (snd (report_item E it))) items))"
proof (induction items arbitrary: catalog_text)
  case Nil
  show ?case by simp
next
  case (Cons it rest)
  obtain parts where d: "report_item E it = (None, parts)"
    using Cons.prems by (cases "report_item E it") simp
  from Cons.prems have "list_all (\<lambda>it. fst (report_item E it) = None) rest" by simp
  from Cons.IH [OF this, of "catalog_text @ concat parts"] d show ?case by simp
qed

lemma report_catalog_raise:
  assumes "list_all (\<lambda>it. fst (report_item E it) = None) pre"
    and "fst (report_item E it) = Some e"
  shows "report_catalog E (pre @ it # post) catalog_text = Inl e"
  using assms(1)
proof (induction pre arbitrary: catalog_text)
  case Nil
  obtain parts where d: "report_item E it = (Some e, parts)"
    using assms(2) by (cases "report_item E it") simp
  then show ?case by simp
next
  case (Cons p pre)
  obtain parts where d: "report_item E p = (None, parts)"
    using Cons.prems by (cases "report_item E p") simp
  from Cons.prems have "list_all (\<lambda>it. fst (report_item E it) = None) pre" by simp
  from Cons.IH [OF this, of "catalog_text @ concat parts"] d show ?case by simp
qed

lemma display_catalog_cong:
  "map (display_item E) xs = map (display_item E) ys \<Longrightarrow>
     display_catalog E xs w = display_catalog E ys w"
proof (induction xs arbitrary: ys w)
  case Nil
  then show ?case by simp
next
  case (Cons x xs)
  then obtain y ys' where ys: "ys = y # ys'" by (cases ys) auto
  with Cons.prems have h: "display_item E x = display_item E y"
    "map (display_item E) xs = map (display_item E) ys'" by simp_all
  from Cons.IH [OF h(2)] h(1) ys show ?case by (simp split: prod.splits option.splits)
qed

lemma report_catalog_cong:
  "map (report_item E) xs = map (report_item E) ys \<Longrightarrow>
     report_catalog E xs acc = report_catalog E ys acc"
proof (induction xs arbitrary: ys acc)
  case Nil
  then show ?case by simp
next
  case (Cons x xs)
  then obtain y ys' where ys: "ys = y # ys'" by (cases ys) auto
  with Cons.prems have h: "report_item E x = report_item E y"
    "map (report_item E) xs = map (report_item E) ys'" by simp_all
  from Cons.IH [OF h(2)] h(1) ys show ?case by (simp split: prod.splits option.splits)
qed

lemma records_agree:
  assumes "list_all2 (\<lambda>d d'. list_all (\<lambda>k. map_of d k = map_of d' k) catalog_fields) ds ds'"
  shows "display_catalog E (map JObj ds) w = display_catalog E (map JObj ds') w"
    and "report_catalog E (map JObj ds) acc = report_catalog E (map JObj ds') acc"
proof -
  from assms have "map (display_item E) (map JObj ds) = map (display_item E) (map JObj ds')
                   \<and> map (report_item E) (map JObj ds) = map (report_item E) (map JObj ds')"
    by (induction rule: list_all2_induct) (simp_all add: fields_agree)
  then show "display_catalog E (map JObj ds) w = display_catalog E (map JObj ds') w"
    and "report_catalog E (map JObj ds) acc = report_catalog E (map JObj ds') acc"
    by (simp_all add: display_catalog_cong report_catalog_cong)
qed

lemma report_catalog_differs:
  assumes "list_all (\<lambda>it. fst (report_item E it) = None) pre"
    and "list_all (\<lambda>it. fst (report_item E it) = None) post"
    and "fst (report_item E a) = None" and "fst (report_item E b) = None"
    and "concat (snd (report_item E a)) \<noteq> concat (snd (report_item E b))"
  shows "report_catalog E (pre @ a # post) acc \<noteq> report_catalog E (pre @ b # post) acc"
proof -
  from assms(1-4) have "list_all (\<lambda>it. fst (report_item E it) = None) (pre @ a # post)"
    "list_all (\<lambda>it. fst (report_item E it) = None) (pre @ b # post)" by simp_all
  from report_catalog_all [OF this(1), of acc] report_catalog_all [OF this(2), of acc] assms(5)
  show ?thesis by simp
qed

lemma display_catalog_differs:
  assumes "list_all (\<lambda>it. fst (display_item E it) = None) pre"
    and "list_all (\<lambda>it. fst (display_item E it) = None) post"
    and "fst (display_item E a) = None" and "fst (display_item E b) = None"
    and "snd (display_item E a) \<noteq> snd (display_item E b)"
    and "length (snd (display_item E a)) = length (snd (display_item E b))"
  shows "ui (snd (display_catalog E (pre @ a # post) w))
           \<noteq> ui (snd (display_catalog E (pre @ b # post) w))"
proof -
  from assms(1-4) have "list_all (\<lambda>it. fst (display_item E it) = None) (pre @ a # post)"
    "list_all (\<lambda>it. fst (display_item E it) = None) (pre @ b # post)" by simp_all
  from display_catalog_all [OF this(1), of w] display_catalog_all [OF this(2), of w] assms(5,6)
  show ?thesis by simp
qed

lemma item_with_field:
  "list_all (\<lambda>k. fst (report_item E (JObj [(k, JStr (lit ''x''))])) = None
                \<and> fst (display_item E (JObj [(k, JStr (lit ''x''))])) = None
                \<and> length (snd (display_item E (JObj [(k, JStr (lit ''x''))]))) = 9
                \<and> concat (snd (report_item E (JObj [(k, JStr (lit ''x''))])))
                    \<noteq> concat (snd (report_item E (JObj [])))
                \<and> snd (display_item E (JObj [(k, JStr (lit ''x''))]))
                    \<noteq> snd (display_item E (JObj [])))
     catalog_fields"
  by (simp add: catalog_fields_def display_item_def report_item_def field_text_def
      field_joined_def fmt_def comma_join_def framed_def shown_def lit_def)

lemma trans_sym: "a = c \<Longrightarrow> b = c \<Longrightarrow> a = (b::'a)"
  by simp

lemma each_record_read:
  assumes "list_all (\<lambda>it. fst (report_item E it) = None) pre"
    and "list_all (\<lambda>it. fst (report_item E it) = None) post"
    and "list_all (\<lambda>it. fst (display_item E it) = None) pre"
    and "list_all (\<lambda>it. fst (display_item E it) = None) post"
  shows "list_all
           (\<lambda>k. report_catalog E (pre @ JObj [(k, JStr (lit ''x''))] # post) acc
                   \<noteq> report_catalog E (pre @ JObj [] # post) acc
                \<and> ui (snd (display_catalog E (pre @ JObj [(k, JStr (lit ''x''))] # post) w))
                   \<noteq> ui (snd (display_catalog E (pre @ JObj [] # post) w)))
           catalog_fields"
proof (rule list.pred_mono_strong [OF item_with_field [of E]])
  fix k
  assume k: "fst (report_item E (JObj [(k, JStr (lit ''x''))])) = None
                \<and> fst (display_item E (JObj [(k, JStr (lit ''x''))])) = None
                \<and> length (snd (display_item E (JObj [(k, JStr (lit ''x''))]))) = 9
                \<and> concat (snd (report_item E (JObj [(k, JStr (lit ''x''))])))
                    \<noteq> concat (snd (report_item E (JObj [])))
                \<and> snd (display_item E (JObj [(k, JStr (lit ''x''))]))
                    \<noteq> snd (display_item E (JObj []))"
  have e: "fst (report_item E (JObj [])) = None" "fst (display_item E (JObj [])) = None"
    "length (snd (display_item E (JObj []))) = 9"
    by (simp_all add: display_item_empty report_item_empty)
  note k1 = k [THEN conjunct1]
  note k2 = k [THEN conjunct2, THEN conjunct1]
  note k3 = k [THEN conjunct2, THEN conjunct2, THEN conjunct1]
  note k4 = k [THEN conjunct2, THEN conjunct2, THEN conjunct2, THEN conjunct1]
  note k5 = k [THEN conjunct2, THEN conjunct2, THEN conjunct2, THEN conjunct2]
  have r: "report_catalog E (pre @ JObj [(k, JStr (lit ''x''))] # post) acc
                   \<noteq> report_catalog E (pre @ JObj [] # post) acc"
    by (rule report_catalog_differs [OF assms(1,2) k1 e(1) k4])
  from k3 e(3) have l: "length (snd (display_item E (JObj [(k, JStr (lit ''x''))])))
                        = length (snd (display_item E (JObj [])))" by (rule trans_sym)
  have d: "ui (snd (display_catalog E (pre @ JObj [(k, JStr (lit ''x''))] # post) w))
                   \<noteq> ui (snd (display_catalog E (pre @ JObj [] # post) w))"
    by (rule display_catalog_differs [OF assms(3,4) k2 e(2) k5 l])
  from r d show "report_catalog E (pre @ JObj [(k, JStr (lit ''x''))] # post) acc
                   \<noteq> report_catalog E (pre @ JObj [] # post) acc
                \<and> ui (snd (display_catalog E (pre @ JObj [(k, JStr (lit ''x''))] # post) w))
                   \<noteq> ui (snd (display_catalog E (pre @ JObj [] # post) w))" by (rule conjI)
qed

lemma dashboard_displays:
  assumes "uploaded_images_of inp = Some imgs" and "imgs \<noteq> []"
    and "analyze_all E m imgs [] (render (StHeader (lit ''Wardrobe Dashboard'')) w) = (all_catalogs, w2)"
    and "all_catalogs \<noteq> []"
  shows "dashboard E m inp w =
     (case display_catalog E all_catalogs
             (render (StSubheader (lit ''Clothing Catalog:''))
               (w2\<lparr>session_state := (session_state w2)(lit ''catalog'' \<mapsto> all_catalogs)\<rparr>)) of
        (Some e, w3) \<Rightarrow> (Some e, w3)
      | (None, w3) \<Rightarrow> (None, render (StSuccess (lit ''Image Analysis Complete!'')) w3))"
proof -
  obtain x xs where "all_catalogs = x # xs" using assms(4) by (cases all_catalogs) auto
  moreover obtain i rest where "imgs = i # rest" using assms(2) by (cases imgs) auto
  ultimately show ?thesis using assms(1,3) by (simp add: dashboard_def Let_def)
qed

lemma outfit_page_report:
  assumes "session_state w (lit ''catalog'') = Some catalog"
    and "generate_outfit_combinations E m catalog
           (render (StSpinner (lit ''Generating Outfit Combinations...''))
             (render (StHeader (lit ''Outfit Combinations'')) w)) = (Some outfit_combinations, w2)"
    and "outfit_combinations \<noteq> []"
  shows "outfit_page E m w =
     (let w3 = render (StMarkdown outfit_combinations)
                 (render (StSubheader (lit ''Outfit Suggestions:'')) w2)
      in case report_catalog E catalog [] of
           Inl e \<Rightarrow> (Some e, w3)
         | Inr catalog_text \<Rightarrow>
             (case encode_utf8
                     (lit ''Clothing Catalog:\<newline>'' @ catalog_text
                      @ lit ''\<newline>\<newline>Outfit Combinations:\<newline>'' @ outfit_combinations) of
                Inl e \<Rightarrow> (Some e, w3)
              | Inr data \<Rightarrow>
                  (None,
                   render (StMarkdownHtml next_step_html)
                     (render (StDownloadButton (lit ''Download Catalog and Outfits'')
                                data (lit ''wardrobe_report.txt'') (lit ''text/plain''))
                        w3))))"
proof -
  obtain c cs where "outfit_combinations = c # cs" using assms(3) by (cases outfit_combinations) auto
  with assms(1,2) show ?thesis by (simp add: outfit_page_def Let_def split: sum.splits)
qed

lemma encode_utf8_ascii:
  "list_all (\<lambda>c. c < 128) s \<Longrightarrow> encode_utf8 s = Inr s"
proof -
  assume a: "list_all (\<lambda>c. c < 128) s"
  then have t: "takeWhile (\<lambda>c. \<not> is_surrogate c) s = s"
    by (induction s) (simp_all add: is_surrogate_def)
  from a have c: "concat (map utf8_char s) = s"
    by (induction s) (simp_all add: utf8_char_def)
  show ?thesis unfolding encode_utf8_def Let_def t by (simp add: c)
qed

section \<open>The loop over the images makes a call for every file\<close>

lemma uploaded_images_are_files:
  "uploaded_images_of inp = Some imgs \<Longrightarrow> list_all (\<lambda>i. i \<noteq> None) imgs"
  by (auto simp: uploaded_images_of_def list_all_iff split: if_splits option.splits)

lemma analysis_results_of_files:
  "imgs \<noteq> [] \<Longrightarrow> list_all (\<lambda>i. i \<noteq> None) imgs \<Longrightarrow> analysis_results E m imgs w \<noteq> []"
proof (cases imgs)
  case Nil
  assume "imgs \<noteq> []"
  with Nil show ?thesis by simp
next
  case (Cons i rest)
  assume "list_all (\<lambda>i. i \<noteq> None) imgs"
  with Cons obtain f where "i = Some f" by auto
  with Cons show ?thesis
    by (simp add: analysis_results_Some del: analysis_results.simps split: prod.splits)
qed

section \<open>The claims about \<open>analyze_image\<close>\<close>

text \<open>
  Claim C1. The reply is searched once, with the pattern of line 41, in the stripped
  text, where the search finds what it would find in the text as received. The search
  fails exactly when no part of the stripped text is in the language of the pattern.
  When it fails, \<open>analyze_image\<close> shows the extraction error and returns
  \<open>None\<close>, and \<open>json.loads\<close> is not consulted: the run is the same under any other
  \<open>json.loads\<close>. When it succeeds, the matched part is the only text that is parsed:
  the run is the same under any \<open>json.loads\<close> that agrees on the matched part.
\<close>

theorem analyze_image_regex_only:
  assumes "image_open E f = Inr d"
    and "generate_content E m (length (calls w)) (PromptAndImage analyze_prompt d) = Inr (Inr text)"
  shows "re_search json_array_pattern (strip text) = re_search json_array_pattern text
       \<and> (re_search json_array_pattern (strip text) = None \<longleftrightarrow>
            \<not> holds_match json_array_pattern (strip text))
       \<and> (re_search json_array_pattern (strip text) = None \<longrightarrow>
            analyze_image E m f w =
              (None,
               st_error (lit ''Failed to extract JSON from the response. Please check the format.'')
                 (send m (PromptAndImage analyze_prompt d) w))
            \<and> (\<forall>loads. analyze_image (E\<lparr>json_loads := loads\<rparr>) m f w = analyze_image E m f w))
       \<and> (\<forall>j. re_search json_array_pattern (strip text) = Some j \<longrightarrow>
            (\<forall>loads. loads j = json_loads E j \<longrightarrow>
               analyze_image (E\<lparr>json_loads := loads\<rparr>) m f w = analyze_image E m f w))"
proof -
  have a: "re_search json_array_pattern (strip text) = None \<longleftrightarrow>
            \<not> holds_match json_array_pattern (strip text)"
    by (rule re_search_None_iff)
  have b: "analyze_image E m f w =
              (None,
               st_error (lit ''Failed to extract JSON from the response. Please check the format.'')
                 (send m (PromptAndImage analyze_prompt d) w))
            \<and> (\<forall>loads. analyze_image (E\<lparr>json_loads := loads\<rparr>) m f w = analyze_image E m f w)"
    if "re_search json_array_pattern (strip text) = None"
    using that assms by (simp add: analyze_image_def Let_def)
  have c: "analyze_image (E\<lparr>json_loads := loads\<rparr>) m f w = analyze_image E m f w"
    if "re_search json_array_pattern (strip text) = Some j" "loads j = json_loads E j" for j loads
    using that assms by (simp add: analyze_image_def Let_def)
  from re_search_strip a b c show ?thesis by blast
qed

theorem analyze_image_regex_only_witness:
  "re_search json_array_pattern (strip (lit ''I see no clothing here. '')) = None
   \<and> analyze_image (example_env (lit ''I see no clothing here. '')) (GenerativeModel []) 0 example_world =
       (None,
        st_error (lit ''Failed to extract JSON from the response. Please check the format.'')
          (send (GenerativeModel []) (PromptAndImage analyze_prompt 0) example_world))"
proof -
  let ?E = "example_env (lit ''I see no clothing here. '')"
  have h1: "image_open ?E 0 = Inr 0" by (simp add: example_env_def)
  have h2: "generate_content ?E (GenerativeModel []) (length (calls example_world))
              (PromptAndImage analyze_prompt 0) = Inr (Inr (lit ''I see no clothing here. ''))"
    by (simp add: example_env_def)
  have h3: "re_search json_array_pattern (strip (lit ''I see no clothing here. '')) = None"
    by (simp add: json_array_pattern_def strip_def lit_def isspace_def)
  from analyze_image_regex_only [OF h1 h2] h3 show ?thesis by blast
qed

text \<open>
  Claim C2. Given a reply of the hosted model, \<open>analyze_image\<close> returns \<open>None\<close> exactly
  when the pattern finds no match in the text of the reply, or the matched part does not
  parse (\<open>JSONDecodeError\<close>), or the parsed value is not a list, or an exception is raised
  (by the reply's \<open>text\<close> property or by \<open>json.loads\<close>); in every other case it returns
  the parsed list.
\<close>

theorem analyze_image_None_iff:
  assumes "image_open E f = Inr d"
    and "generate_content E m (length (calls w)) (PromptAndImage analyze_prompt d) = Inr reply"
  shows "(fst (analyze_image E m f w) = None \<longleftrightarrow>
            (\<exists>text. reply = Inr text \<and> re_search json_array_pattern text = None)
          \<or> (\<exists>text j msg. reply = Inr text \<and> re_search json_array_pattern text = Some j
                \<and> json_loads E j = Inl (JSONDecodeError msg))
          \<or> (\<exists>text j v. reply = Inr text \<and> re_search json_array_pattern text = Some j
                \<and> json_loads E j = Inr v \<and> (\<forall>xs. v \<noteq> JArr xs))
          \<or> (\<exists>e. reply = Inl e)
          \<or> (\<exists>text j e. reply = Inr text \<and> re_search json_array_pattern text = Some j
                \<and> json_loads E j = Inl e \<and> (\<forall>msg. e \<noteq> JSONDecodeError msg)))
       \<and> (\<forall>xs. fst (analyze_image E m f w) = Some xs \<longleftrightarrow>
            (\<exists>text j. reply = Inr text \<and> re_search json_array_pattern text = Some j
               \<and> json_loads E j = Inr (JArr xs)))"
proof (cases reply)
  case (Inl e)
  with assms show ?thesis by (simp add: analyze_image_def Let_def)
next
  case (Inr t)
  note here = analyze_image_on_reply [OF assms(1) assms(2) [unfolded Inr], unfolded re_search_strip]
  show ?thesis
  proof (cases "re_search json_array_pattern t")
    case None
    with Inr here show ?thesis by (simp add: Let_def)
  next
    case (Some j)
    show ?thesis
    proof (cases "json_loads E j")
      case (Inl e)
      with Inr Some here show ?thesis by (cases e) (simp_all add: Let_def)
    next
      case (Inr v)
      with \<open>reply = Inr t\<close> Some here show ?thesis by (cases v) (simp_all add: Let_def)
    qed
  qed
qed

theorem analyze_image_None_iff_witness:
  \<open>image_open (example_env (lit ''Here: [{}, 1, {"size": null}] '')) 7 = Inr 7
   \<and> fst (analyze_image (example_env (lit ''Here: [{}, 1, {"size": null}] ''))
          (GenerativeModel []) 7 example_world)
       = Some [JObj [], JInt 1, JObj [(lit ''size'', JNull)]]\<close>
proof -
  let ?r = \<open>lit ''Here: [{}, 1, {"size": null}] ''\<close>
  let ?E = "example_env ?r"
  let ?xs = "[JObj [], JInt 1, JObj [(lit ''size'', JNull)]]"
  have h1: "image_open ?E 7 = Inr 7" by (simp add: example_env_def)
  have h2: "generate_content ?E (GenerativeModel []) (length (calls example_world))
              (PromptAndImage analyze_prompt 7) = Inr (Inr ?r)"
    by (simp add: example_env_def)
  have l: \<open>json_loads ?E (lit ''[{}, 1, {"size": null}]'') = Inr (JArr ?xs)\<close>
    by (simp add: example_env_def example_loads_def)
  have ex: "\<exists>t j. (Inr ?r :: py_error + str) = Inr t
          \<and> re_search json_array_pattern t = Some j \<and> json_loads ?E j = Inr (JArr ?xs)"
    by (intro exI conjI) (rule refl, rule example_match [unfolded re_search_strip], rule l)
  note iff = analyze_image_None_iff [OF h1 h2, THEN conjunct2, THEN spec, of ?xs]
  from ex have "fst (analyze_image ?E (GenerativeModel []) 7 example_world) = Some ?xs"
    by (rule iff [THEN iffD2])
  with h1 show ?thesis by (rule conjI)
qed

text \<open>
  Claim C3. When the matched part of the reply parses as an array, that array is
  returned as it is, whatever its elements are: no test is made on them.
\<close>

theorem analyze_image_returns_parsed_array:
  assumes "image_open E f = Inr d"
    and "generate_content E m (length (calls w)) (PromptAndImage analyze_prompt d) = Inr (Inr text)"
    and "re_search json_array_pattern (strip text) = Some j"
    and "json_loads E j = Inr (JArr xs)"
  shows "analyze_image E m f w = (Some xs, send m (PromptAndImage analyze_prompt d) w)"
  using assms by (simp add: analyze_image_def Let_def)

theorem analyze_image_returns_parsed_array_witness:
  \<open>analyze_image (example_env (lit ''Here: [{}, 1, {"size": null}] '')) (GenerativeModel []) 7
       example_world
     = (Some [JObj [], JInt 1, JObj [(lit ''size'', JNull)]],
        send (GenerativeModel []) (PromptAndImage analyze_prompt 7) example_world)\<close>
proof -
  let ?r = \<open>lit ''Here: [{}, 1, {"size": null}] ''\<close>
  let ?E = "example_env ?r"
  have h1: "image_open ?E 7 = Inr 7" by (simp add: example_env_def)
  have h2: "generate_content ?E (GenerativeModel []) (length (calls example_world))
              (PromptAndImage analyze_prompt 7) = Inr (Inr ?r)"
    by (simp add: example_env_def)
  have l: \<open>json_loads ?E (lit ''[{}, 1, {"size": null}]'')
             = Inr (JArr [JObj [], JInt 1, JObj [(lit ''size'', JNull)]])\<close>
    by (simp add: example_env_def example_loads_def)
  from analyze_image_returns_parsed_array [OF h1 h2 example_match l] show ?thesis .
qed

section \<open>The claims about the two calls of the hosted model\<close>

text \<open>
  Claim C5. One invocation of \<open>analyze_image\<close> adds at most one call to the calls sent
  to the hosted model, and one invocation of \<open>generate_outfit_combinations\<close> adds
  exactly one; each call goes to the model the function was given, and in a run of the
  script every call goes to the one global \<open>model\<close>. The prompt of
  \<open>generate_outfit_combinations\<close> contains the text of the catalog it was given.
\<close>

theorem one_call_to_one_model:
  "(\<exists>cs. calls (snd (analyze_image E m f w)) = calls w @ cs \<and> length cs \<le> 1
          \<and> list_all (\<lambda>c. fst c = m) cs)
   \<and> calls (snd (generate_outfit_combinations E m c w)) =
        calls w @ [(m, PromptOnly (outfit_prompt E c))]
   \<and> (\<exists>before after. outfit_prompt E c = before @ py_repr E (JArr c) @ after)
   \<and> calls_to (GenerativeModel gemini_model_name) w (snd (script E inp w))"
proof -
  have a: "\<exists>cs. calls (snd (analyze_image E m f w)) = calls w @ cs \<and> length cs \<le> 1
          \<and> list_all (\<lambda>c. fst c = m) cs"
    by (cases "image_open E f") (simp_all add: analyze_image_calls)
  have b: "\<exists>before after. outfit_prompt E c = before @ py_repr E (JArr c) @ after"
    unfolding outfit_prompt_def by blast
  from a b generate_outfit_combinations_calls [of E m c w] script_frame [of E inp w]
  show ?thesis by blast
qed

text \<open>
  Claim C6, as the claim states it, fails for \<open>generate_outfit_combinations\<close>: a reply
  whose text has white space at both ends is returned with it, unchanged.
\<close>

theorem outfit_reply_returned_raw_counterexample:
  "generate_content (example_env (lit '' Outfit 1: jeans and a shirt.  '')) (GenerativeModel [])
       (length (calls example_world))
       (PromptOnly (outfit_prompt (example_env (lit '' Outfit 1: jeans and a shirt.  '')) []))
     = Inr (Inr (lit '' Outfit 1: jeans and a shirt.  ''))
   \<and> fst (generate_outfit_combinations (example_env (lit '' Outfit 1: jeans and a shirt.  ''))
            (GenerativeModel []) [] example_world)
     = Some (lit '' Outfit 1: jeans and a shirt.  '')"
  by (simp add: generate_outfit_combinations_def example_env_def Let_def)

text \<open>
  Claim C6, amended. \<open>generate_outfit_combinations\<close> returns the text of a reply as it
  is. \<open>analyze_image\<close> does process the reply: what it returns is the array that
  \<open>json.loads\<close> gives for the part of the stripped text that the pattern matched.
\<close>

theorem post_processing_of_replies:
  "(generate_content E m (length (calls w)) (PromptOnly (outfit_prompt E c)) = Inr (Inr text)
      \<longrightarrow> fst (generate_outfit_combinations E m c w) = Some text)
   \<and> (image_open E f = Inr d
      \<and> generate_content E m (length (calls w)) (PromptAndImage analyze_prompt d) = Inr (Inr text)
      \<and> fst (analyze_image E m f w) = Some xs
      \<longrightarrow> (\<exists>j. re_search json_array_pattern (strip text) = Some j
                \<and> json_loads E j = Inr (JArr xs)))"
proof -
  have a: "fst (generate_outfit_combinations E m c w) = Some text"
    if "generate_content E m (length (calls w)) (PromptOnly (outfit_prompt E c)) = Inr (Inr text)"
    using that by (simp add: generate_outfit_combinations_def Let_def)
  have b: "\<exists>j. re_search json_array_pattern (strip text) = Some j \<and> json_loads E j = Inr (JArr xs)"
    if "image_open E f = Inr d"
      "generate_content E m (length (calls w)) (PromptAndImage analyze_prompt d) = Inr (Inr text)"
      "fst (analyze_image E m f w) = Some xs"
    using that
    by (auto simp: analyze_image_def Let_def
        split: option.splits sum.splits json.splits py_error.splits)
  from a b show ?thesis by blast
qed

theorem post_processing_of_replies_witness:
  \<open>fst (generate_outfit_combinations (example_env (lit ''Here: [{}, 1, {"size": null}] ''))
          (GenerativeModel []) [] example_world)
     = Some (lit ''Here: [{}, 1, {"size": null}] '')
   \<and> (\<exists>j. re_search json_array_pattern (strip (lit ''Here: [{}, 1, {"size": null}] '')) = Some j
          \<and> json_loads (example_env (lit ''Here: [{}, 1, {"size": null}] '')) j
              = Inr (JArr [JObj [], JInt 1, JObj [(lit ''size'', JNull)]]))\<close>
proof -
  let ?r = \<open>lit ''Here: [{}, 1, {"size": null}] ''\<close>
  let ?E = "example_env ?r"
  let ?m = "GenerativeModel []"
  let ?xs = "[JObj [], JInt 1, JObj [(lit ''size'', JNull)]]"
  have g: "generate_content ?E ?m (length (calls example_world)) (PromptOnly (outfit_prompt ?E []))
             = Inr (Inr ?r)"
    by (simp add: example_env_def)
  have h1: "image_open ?E 7 = Inr 7" by (simp add: example_env_def)
  have h2: "generate_content ?E ?m (length (calls example_world))
              (PromptAndImage analyze_prompt 7) = Inr (Inr ?r)"
    by (simp add: example_env_def)
  have l: \<open>json_loads ?E (lit ''[{}, 1, {"size": null}]'') = Inr (JArr ?xs)\<close>
    by (simp add: example_env_def example_loads_def)
  have h3: "fst (analyze_image ?E ?m 7 example_world) = Some ?xs"
    using analyze_image_on_reply [OF h1 h2] example_match l by (simp add: Let_def)
  note t = post_processing_of_replies [of ?E ?m example_world "[]" ?r 7 7 ?xs]
  from t [THEN conjunct1] g
  have a: "fst (generate_outfit_combinations ?E ?m [] example_world) = Some ?r" by (rule mp)
  from h1 h2 h3 have "image_open ?E 7 = Inr 7
      \<and> generate_content ?E ?m (length (calls example_world)) (PromptAndImage analyze_prompt 7)
          = Inr (Inr ?r)
      \<and> fst (analyze_image ?E ?m 7 example_world) = Some ?xs" by (intro conjI)
  with t [THEN conjunct2]
  have b: "\<exists>j. re_search json_array_pattern (strip ?r) = Some j \<and> json_loads ?E j = Inr (JArr ?xs)"
    by (rule mp)
  from a b show ?thesis by (rule conjI)
qed

section \<open>The claim about the fields of a catalog record\<close>

text \<open>
  Claim C4. The prompt of \<open>analyze_image\<close> contains the JSON text of an array of one
  object with exactly the eight keys of \<open>catalog_fields\<close>. The Dashboard page shows
  the stored catalog with \<open>display_catalog\<close>, which shows every record in turn with
  \<open>display_item\<close> and stops at the first record that raises. The Outfit Combinations
  page builds the report with \<open>report_catalog\<close>, which adds the text of every record
  in turn and raises at the first record that raises; the download button carries the
  UTF-8 encoding of the report. What is shown and what is reported depend on the eight
  fields of each record only; each of the eight fields of each record is read (a change
  of one field of one record changes the display and the report); and a field that is
  absent is shown as \<open>N/A\<close>.
\<close>

theorem catalog_record_fields:
  "(\<exists>before after. analyze_prompt = before @ structure_of requested_fields @ after)
   \<and> map fst requested_fields = catalog_fields
   \<and> length catalog_fields = 8 \<and> distinct catalog_fields
   \<and> (\<forall>imgs all_catalogs w2.
         uploaded_images_of inp = Some imgs \<and> imgs \<noteq> []
         \<and> analyze_all E m imgs [] (render (StHeader (lit ''Wardrobe Dashboard'')) w) = (all_catalogs, w2)
         \<and> all_catalogs \<noteq> []
         \<longrightarrow> dashboard E m inp w =
               (case display_catalog E all_catalogs
                       (render (StSubheader (lit ''Clothing Catalog:''))
                         (w2\<lparr>session_state := (session_state w2)(lit ''catalog'' \<mapsto> all_catalogs)\<rparr>)) of
                  (Some e, w3) \<Rightarrow> (Some e, w3)
                | (None, w3) \<Rightarrow> (None, render (StSuccess (lit ''Image Analysis Complete!'')) w3)))
   \<and> (\<forall>items v. list_all (\<lambda>it. fst (display_item E it) = None) items \<longrightarrow>
         display_catalog E items v =
           (None, v\<lparr>ui := ui v @ concat (map (\<lambda>it. snd (display_item E it)) items)\<rparr>))
   \<and> (\<forall>pre it post e v.
         list_all (\<lambda>it. fst (display_item E it) = None) pre \<and> fst (display_item E it) = Some e \<longrightarrow>
         display_catalog E (pre @ it # post) v =
           (Some e,
            v\<lparr>ui := ui v @ concat (map (\<lambda>it. snd (display_item E it)) pre)
                       @ snd (display_item E it)\<rparr>))
   \<and> (\<forall>catalog outfit_combinations w2.
         session_state w (lit ''catalog'') = Some catalog
         \<and> generate_outfit_combinations E m catalog
              (render (StSpinner (lit ''Generating Outfit Combinations...''))
                (render (StHeader (lit ''Outfit Combinations'')) w)) = (Some outfit_combinations, w2)
         \<and> outfit_combinations \<noteq> []
         \<longrightarrow> outfit_page E m w =
               (let w3 = render (StMarkdown outfit_combinations)
                           (render (StSubheader (lit ''Outfit Suggestions:'')) w2)
                in case report_catalog E catalog [] of
                     Inl e \<Rightarrow> (Some e, w3)
                   | Inr catalog_text \<Rightarrow>
                       (case encode_utf8
                               (lit ''Clothing Catalog:\<newline>'' @ catalog_text
                                @ lit ''\<newline>\<newline>Outfit Combinations:\<newline>'' @ outfit_combinations) of
                          Inl e \<Rightarrow> (Some e, w3)
                        | Inr data \<Rightarrow>
                            (None,
                             render (StMarkdownHtml next_step_html)
                               (render (StDownloadButton (lit ''Download Catalog and Outfits'')
                                          data (lit ''wardrobe_report.txt'') (lit ''text/plain''))
                                  w3)))))
   \<and> (\<forall>items acc. list_all (\<lambda>it. fst (report_item E it) = None) items \<longrightarrow>
         report_catalog E items acc =
           Inr (acc @ concat (map (\<lambda>it. concat (snd (report_item E it))) items)))
   \<and> (\<forall>pre it post e acc.
         list_all (\<lambda>it. fst (report_item E it) = None) pre \<and> fst (report_item E it) = Some e \<longrightarrow>
         report_catalog E (pre @ it # post) acc = Inl e)
   \<and> (\<forall>ds ds' v acc.
         list_all2 (\<lambda>d d'. list_all (\<lambda>k. map_of d k = map_of d' k) catalog_fields) ds ds' \<longrightarrow>
         display_catalog E (map JObj ds) v = display_catalog E (map JObj ds') v
         \<and> report_catalog E (map JObj ds) acc = report_catalog E (map JObj ds') acc)
   \<and> (\<forall>pre post v acc.
         list_all (\<lambda>it. fst (report_item E it) = None) pre
         \<and> list_all (\<lambda>it. fst (report_item E it) = None) post
         \<and> list_all (\<lambda>it. fst (display_item E it) = None) pre
         \<and> list_all (\<lambda>it. fst (display_item E it) = None) post \<longrightarrow>
         list_all
           (\<lambda>k. report_catalog E (pre @ JObj [(k, JStr (lit ''x''))] # post) acc
                   \<noteq> report_catalog E (pre @ JObj [] # post) acc
                \<and> ui (snd (display_catalog E (pre @ JObj [(k, JStr (lit ''x''))] # post) v))
                   \<noteq> ui (snd (display_catalog E (pre @ JObj [] # post) v)))
           catalog_fields)
   \<and> (\<forall>d k. map_of d k = None \<longrightarrow>
         field_text E (JObj d) k = Inr (lit ''N/A'') \<and> field_joined (JObj d) k = Inr (lit ''N/A''))
   \<and> display_item E (JObj []) =
       (None,
        [StExpander (lit ''Item: N/A''), StMarkdown (lit ''**Category:** N/A''),
         StMarkdown (lit ''**Colors:** N/A''), StMarkdown (lit ''**Style:** N/A''),
         StMarkdown (lit ''**Gender Type:** N/A''), StMarkdown (lit ''**Suitable Weather:** N/A''),
         StMarkdown (lit ''**Material:** N/A''), StMarkdown (lit ''**Occasion:** N/A''),
         StMarkdown (lit ''---'')])
   \<and> report_item E (JObj []) =
       (None,
        [lit ''Description: N/A\<newline>'', lit ''Category: N/A\<newline>'', lit ''Colors: N/A\<newline>'',
         lit ''Style: N/A\<newline>'', lit ''Gender Type: N/A\<newline>'',
         lit ''Suitable Weather: N/A\<newline>'', lit ''Material: N/A\<newline>'',
         lit ''Occasion: N/A\<newline>'', replicate 30 45 @ [10]])"
proof -
  have a: "map fst requested_fields = catalog_fields"
    by (simp add: requested_fields_def catalog_fields_def)
  have b: "length catalog_fields = 8" "distinct catalog_fields"
    by (simp_all add: catalog_fields_def)
  show ?thesis
    apply (intro conjI allI impI)
                  apply (rule analyze_prompt_structure)
                 apply (rule a)
                apply (rule b(1))
               apply (rule b(2))
              apply (elim conjE, rule dashboard_displays; assumption)
             apply (rule display_catalog_all; assumption)
            apply (elim conjE, rule display_catalog_raise; assumption)
           apply (elim conjE, rule outfit_page_report; assumption)
          apply (rule report_catalog_all; assumption)
         apply (elim conjE, rule report_catalog_raise; assumption)
        apply (rule records_agree(1); assumption)
       apply (rule records_agree(2); assumption)
      apply (elim conjE, rule each_record_read; assumption)
     apply (rule field_absent [THEN conjunct1]; assumption)
    apply (rule field_absent [THEN conjunct2]; assumption)
     apply (rule display_item_empty)
    apply (rule report_item_empty)
    done
qed

theorem catalog_record_fields_witness:
  "report_catalog (example_env (lit ''Outfit 1: jeans.'')) [JObj []] []
     = Inr (lit ''Description: N/A\<newline>'' @ lit ''Category: N/A\<newline>'' @ lit ''Colors: N/A\<newline>''
            @ lit ''Style: N/A\<newline>'' @ lit ''Gender Type: N/A\<newline>''
            @ lit ''Suitable Weather: N/A\<newline>'' @ lit ''Material: N/A\<newline>''
            @ lit ''Occasion: N/A\<newline>'' @ replicate 30 45 @ [10])
   \<and> display_catalog (example_env (lit ''Outfit 1: jeans.'')) (map JObj [[(lit ''size'', JNull)]])
        example_world
     = display_catalog (example_env (lit ''Outfit 1: jeans.'')) (map JObj [[]]) example_world
   \<and> ui (snd (outfit_page (example_env (lit ''Outfit 1: jeans.'')) (GenerativeModel [])
                 (example_world\<lparr>session_state := [lit ''catalog'' \<mapsto> [JObj []]]\<rparr>)))
     = [StHeader (lit ''Outfit Combinations''),
        StSpinner (lit ''Generating Outfit Combinations...''),
        StSubheader (lit ''Outfit Suggestions:''),
        StMarkdown (lit ''Outfit 1: jeans.''),
        StDownloadButton (lit ''Download Catalog and Outfits'')
          (lit ''Clothing Catalog:\<newline>''
           @ (lit ''Description: N/A\<newline>'' @ lit ''Category: N/A\<newline>'' @ lit ''Colors: N/A\<newline>''
              @ lit ''Style: N/A\<newline>'' @ lit ''Gender Type: N/A\<newline>''
              @ lit ''Suitable Weather: N/A\<newline>'' @ lit ''Material: N/A\<newline>''
              @ lit ''Occasion: N/A\<newline>'' @ replicate 30 45 @ [10])
           @ lit ''\<newline>\<newline>Outfit Combinations:\<newline>'' @ lit ''Outfit 1: jeans.'')
          (lit ''wardrobe_report.txt'') (lit ''text/plain''),
        StMarkdownHtml next_step_html]"
proof -
  let ?t = "lit ''Outfit 1: jeans.''"
  let ?E = "example_env ?t"
  let ?m = "GenerativeModel []"
  let ?w = "example_world\<lparr>session_state := [lit ''catalog'' \<mapsto> [JObj []]]\<rparr>"
  let ?block = "lit ''Description: N/A\<newline>'' @ lit ''Category: N/A\<newline>'' @ lit ''Colors: N/A\<newline>''
            @ lit ''Style: N/A\<newline>'' @ lit ''Gender Type: N/A\<newline>''
            @ lit ''Suitable Weather: N/A\<newline>'' @ lit ''Material: N/A\<newline>''
            @ lit ''Occasion: N/A\<newline>'' @ replicate 30 45 @ [10]"
  let ?w2 = "send ?m (PromptOnly (outfit_prompt ?E [JObj []]))
               (render (StSpinner (lit ''Generating Outfit Combinations...''))
                 (render (StHeader (lit ''Outfit Combinations'')) ?w))"
  note t = catalog_record_fields [where E = ?E and m = ?m and w = ?w]
  note t8 = t [THEN conjunct2, THEN conjunct2, THEN conjunct2, THEN conjunct2, THEN conjunct2,
      THEN conjunct2, THEN conjunct2, THEN conjunct1, THEN spec, THEN spec, THEN spec, THEN mp]
  note t9 = t [THEN conjunct2, THEN conjunct2, THEN conjunct2, THEN conjunct2, THEN conjunct2,
      THEN conjunct2, THEN conjunct2, THEN conjunct2, THEN conjunct1, THEN spec, THEN spec, THEN mp]
  note t11 = t [THEN conjunct2, THEN conjunct2, THEN conjunct2, THEN conjunct2, THEN conjunct2,
      THEN conjunct2, THEN conjunct2, THEN conjunct2, THEN conjunct2, THEN conjunct2,
      THEN conjunct1, THEN spec, THEN spec, THEN spec, THEN spec, THEN mp, THEN conjunct1]
  have ok: "list_all (\<lambda>it. fst (report_item ?E it) = None) [JObj []]"
    by (simp add: report_item_empty)
  have r: "report_catalog ?E [JObj []] [] = Inr ?block"
    using t9 [OF ok, of "[]"] by (simp add: report_item_empty)
  have agree: "list_all2 (\<lambda>d d'. list_all (\<lambda>k. map_of d k = map_of d' k) catalog_fields)
                 [[(lit ''size'', JNull)]] [[] :: (str \<times> json) list]"
    by (simp add: catalog_fields_def)
  have d: "display_catalog ?E (map JObj [[(lit ''size'', JNull)]]) example_world
             = display_catalog ?E (map JObj [[]]) example_world"
    by (rule t11 [OF agree])
  have s: "session_state ?w (lit ''catalog'') = Some [JObj []]" by simp
  have g: "generate_outfit_combinations ?E ?m [JObj []]
             (render (StSpinner (lit ''Generating Outfit Combinations...''))
               (render (StHeader (lit ''Outfit Combinations'')) ?w)) = (Some ?t, ?w2)"
    by (simp add: generate_outfit_combinations_def Let_def example_env_def)
  have n: "?t \<noteq> []" by (simp add: lit_def)
  have ascii: "list_all (\<lambda>c. c < 128)
                 (lit ''Clothing Catalog:\<newline>'' @ ?block
                  @ lit ''\<newline>\<newline>Outfit Combinations:\<newline>'' @ ?t)"
    by (simp add: lit_def list_all_iff)
  have p: "outfit_page ?E ?m ?w =
      (None,
       render (StMarkdownHtml next_step_html)
         (render (StDownloadButton (lit ''Download Catalog and Outfits'')
                    (lit ''Clothing Catalog:\<newline>'' @ ?block
                     @ lit ''\<newline>\<newline>Outfit Combinations:\<newline>'' @ ?t)
                    (lit ''wardrobe_report.txt'') (lit ''text/plain''))
            (render (StMarkdown ?t) (render (StSubheader (lit ''Outfit Suggestions:'')) ?w2))))"
    using t8 [OF conjI [OF s conjI [OF g n]]] r encode_utf8_ascii [OF ascii]
    by (simp add: Let_def)
  have u: "ui example_world = []" by (simp add: example_world_def)
  from r d p u show ?thesis by simp
qed

section \<open>The claims about the session and the pages\<close>

text \<open>
  Claim C7. A run of the script leaves the disk as it was and changes the process
  environment only by the variables of the \<open>.env\<close> file. The Dashboard page stores
  the catalog in \<open>st.session_state\<close> under \<open>catalog\<close> when the analysis gave a list
  that is not empty; the Outfit Combinations page reads it from there (the prompt it
  sends is built from the stored value) and leaves the session state as it was.
\<close>

theorem catalog_kept_in_session_only:
  "disk (snd (script E inp w)) = disk w
   \<and> environ (snd (script E inp w)) = environ w ++ dotenv_values E (disk w)
   \<and> (\<forall>imgs all_catalogs w2.
         uploaded_images_of inp = Some imgs \<and> imgs \<noteq> []
         \<and> analyze_all E m imgs [] (render (StHeader (lit ''Wardrobe Dashboard'')) w) = (all_catalogs, w2)
         \<and> all_catalogs \<noteq> []
         \<longrightarrow> session_state (snd (dashboard E m inp w))
               = (session_state w)(lit ''catalog'' \<mapsto> all_catalogs))
   \<and> (\<forall>c. session_state w (lit ''catalog'') = Some c
         \<longrightarrow> calls (snd (outfit_page E m w)) = calls w @ [(m, PromptOnly (outfit_prompt E c))])
   \<and> session_state (snd (outfit_page E m w)) = session_state w"
  using script_frame [of E inp w] dashboard_stores [of inp _ E m w] outfit_page_calls [of w _ E m]
    outfit_page_frame [of w E m]
  by blast

theorem catalog_kept_in_session_only_witness:
  \<open>session_state
      (snd (dashboard (example_env (lit ''Here: [{}, 1, {"size": null}] '')) (GenerativeModel [])
              (example_inputs (lit ''Dashboard'') [7]) example_world))
    = [lit ''catalog'' \<mapsto> [JObj [], JInt 1, JObj [(lit ''size'', JNull)]]]\<close>
proof -
  let ?r = \<open>lit ''Here: [{}, 1, {"size": null}] ''\<close>
  let ?E = "example_env ?r"
  let ?m = "GenerativeModel []"
  let ?inp = "example_inputs (lit ''Dashboard'') [7]"
  let ?xs = "[JObj [], JInt 1, JObj [(lit ''size'', JNull)]]"
  have u: "uploaded_images_of ?inp = Some [Some 7]"
    by (simp add: uploaded_images_of_def example_inputs_def)
  have s: "session_state example_world = Map.empty" by (simp add: example_world_def)
  note a = example_analyze_all [unfolded u option.sel]
  note t = catalog_kept_in_session_only [where E = ?E and m = ?m and inp = ?inp and w = example_world,
      THEN conjunct2, THEN conjunct2, THEN conjunct1, THEN spec, THEN spec, THEN spec, THEN mp]
  have "session_state (snd (dashboard ?E ?m ?inp example_world))
          = (session_state example_world)(lit ''catalog'' \<mapsto> ?xs)"
    by (rule t) (intro conjI, rule u, simp, rule a, simp)
  then show ?thesis by (simp add: s)
qed

text \<open>
  Claim C8. On the Outfit Combinations page, without a catalog in the session state the
  warning is shown and no call is sent to the hosted model; with a catalog, the one call
  sent carries the prompt built from that catalog, and after a Dashboard run that stored
  a catalog this is the catalog that the Dashboard page stored.
\<close>

theorem outfit_page_uses_session_catalog:
  "(session_state w (lit ''catalog'') = None \<longrightarrow>
      outfit_page E m w =
        (None,
         render (StWarning (lit ''Please upload an image in the dashboard page to generate outfit combinations.''))
           (render (StHeader (lit ''Outfit Combinations'')) w))
      \<and> calls (snd (outfit_page E m w)) = calls w)
   \<and> (\<forall>c. session_state w (lit ''catalog'') = Some c \<longrightarrow>
         calls (snd (outfit_page E m w)) = calls w @ [(m, PromptOnly (outfit_prompt E c))])
   \<and> (\<forall>imgs all_catalogs w2.
         uploaded_images_of inp = Some imgs \<and> imgs \<noteq> []
         \<and> analyze_all E m imgs [] (render (StHeader (lit ''Wardrobe Dashboard'')) w) = (all_catalogs, w2)
         \<and> all_catalogs \<noteq> []
         \<longrightarrow> calls (snd (outfit_page E m (snd (dashboard E m inp w))))
               = calls (snd (dashboard E m inp w)) @ [(m, PromptOnly (outfit_prompt E all_catalogs))])
   \<and> (page inp = lit ''Outfit Combinations'' \<longrightarrow>
         main E m inp w =
           outfit_page E m
             (render (StSidebarTitle (lit ''Navigation''))
               (render (StTitle (lit ''Wardrobe Styling App'')) w)))"
proof -
  have a: "outfit_page E m w =
        (None,
         render (StWarning (lit ''Please upload an image in the dashboard page to generate outfit combinations.''))
           (render (StHeader (lit ''Outfit Combinations'')) w))
      \<and> calls (snd (outfit_page E m w)) = calls w"
    if "session_state w (lit ''catalog'') = None"
    using outfit_page_no_catalog [OF that, of E m] by simp
  have c: "calls (snd (outfit_page E m (snd (dashboard E m inp w))))
               = calls (snd (dashboard E m inp w)) @ [(m, PromptOnly (outfit_prompt E all_catalogs))]"
    if "uploaded_images_of inp = Some imgs" "imgs \<noteq> []"
      "analyze_all E m imgs [] (render (StHeader (lit ''Wardrobe Dashboard'')) w) = (all_catalogs, w2)"
      "all_catalogs \<noteq> []" for imgs all_catalogs w2
  proof -
    from dashboard_stores [OF that]
    have "session_state (snd (dashboard E m inp w)) (lit ''catalog'') = Some all_catalogs" by simp
    then show ?thesis by (rule outfit_page_calls)
  qed
  have d: "main E m inp w =
           outfit_page E m
             (render (StSidebarTitle (lit ''Navigation''))
               (render (StTitle (lit ''Wardrobe Styling App'')) w))"
    if "page inp = lit ''Outfit Combinations''"
    using that by (simp add: main_def Let_def)
  from a c d outfit_page_calls [of w _ E m] show ?thesis by blast
qed

theorem outfit_page_uses_session_catalog_witness:
  \<open>outfit_page (example_env []) (GenerativeModel []) example_world =
      (None,
       render (StWarning (lit ''Please upload an image in the dashboard page to generate outfit combinations.''))
         (render (StHeader (lit ''Outfit Combinations'')) example_world))
   \<and> calls (snd (outfit_page (example_env (lit ''Here: [{}, 1, {"size": null}] ''))
                  (GenerativeModel [])
                  (snd (dashboard (example_env (lit ''Here: [{}, 1, {"size": null}] ''))
                          (GenerativeModel []) (example_inputs (lit ''Dashboard'') [7])
                          example_world))))
     = calls (snd (dashboard (example_env (lit ''Here: [{}, 1, {"size": null}] ''))
                     (GenerativeModel []) (example_inputs (lit ''Dashboard'') [7]) example_world))
       @ [(GenerativeModel [],
           PromptOnly (outfit_prompt (example_env (lit ''Here: [{}, 1, {"size": null}] ''))
                         [JObj [], JInt 1, JObj [(lit ''size'', JNull)]]))]\<close>
proof -
  let ?r = \<open>lit ''Here: [{}, 1, {"size": null}] ''\<close>
  let ?E = "example_env ?r"
  let ?m = "GenerativeModel []"
  let ?inp = "example_inputs (lit ''Dashboard'') [7]"
  let ?xs = "[JObj [], JInt 1, JObj [(lit ''size'', JNull)]]"
  have u: "uploaded_images_of ?inp = Some [Some 7]"
    by (simp add: uploaded_images_of_def example_inputs_def)
  have n: "session_state example_world (lit ''catalog'') = None" by (simp add: example_world_def)
  note a = example_analyze_all [unfolded u option.sel]
  note t1 = outfit_page_uses_session_catalog [where E = "example_env []" and m = ?m
      and w = example_world, THEN conjunct1, THEN mp, THEN conjunct1]
  note t3 = outfit_page_uses_session_catalog [where E = ?E and m = ?m and inp = ?inp
      and w = example_world, THEN conjunct2, THEN conjunct2, THEN conjunct1,
      THEN spec, THEN spec, THEN spec, THEN mp]
  have p1: "outfit_page (example_env []) ?m example_world =
      (None,
       render (StWarning (lit ''Please upload an image in the dashboard page to generate outfit combinations.''))
         (render (StHeader (lit ''Outfit Combinations'')) example_world))"
    by (rule t1) (rule n)
  have p3: "calls (snd (outfit_page ?E ?m (snd (dashboard ?E ?m ?inp example_world))))
     = calls (snd (dashboard ?E ?m ?inp example_world)) @ [(?m, PromptOnly (outfit_prompt ?E ?xs))]"
    by (rule t3) (intro conjI, rule u, simp, rule a, simp)
  from p1 p3 show ?thesis by (rule conjI)
qed

text \<open>
  Claim C9. When \<open>GOOGLE_API_KEY\<close> is unset or empty, the top level shows an error
  whose text starts with \<open>GEMINI_API_KEY\<close> and stops: \<open>genai.configure\<close> is not
  called, no model is made and \<open>main\<close> does not run. The model is made exactly when
  the key is present and not empty, and it is then \<open>gemini-1.5-flash\<close>, configured
  with that key.
\<close>

theorem missing_key_stops_the_app:
  "((environ w ++ dotenv_values E (disk w)) (lit ''GOOGLE_API_KEY'') = None
      \<or> (environ w ++ dotenv_values E (disk w)) (lit ''GOOGLE_API_KEY'') = Some []
     \<longrightarrow> module_top E w =
           (None,
            st_error (lit ''GEMINI_API_KEY'' @ lit '' is not set in the environment variables.'')
              (w\<lparr>environ := environ w ++ dotenv_values E (disk w)\<rparr>))
         \<and> genai_api_key (snd (module_top E w)) = genai_api_key w
         \<and> fst (script E inp w) = Stopped
         \<and> calls (snd (script E inp w)) = calls w)
   \<and> ((\<exists>g. fst (module_top E w) = Some g) \<longleftrightarrow>
        (\<exists>key. (environ w ++ dotenv_values E (disk w)) (lit ''GOOGLE_API_KEY'') = Some key
               \<and> key \<noteq> []))
   \<and> (\<forall>g. fst (module_top E w) = Some g \<longrightarrow>
         model g = GenerativeModel (lit ''gemini-1.5-flash'')
         \<and> (environ w ++ dotenv_values E (disk w)) (lit ''GOOGLE_API_KEY'') = Some (gemini_api_key g)
         \<and> genai_api_key (snd (module_top E w)) = Some (gemini_api_key g))"
proof -
  let ?k = "(environ w ++ dotenv_values E (disk w)) (lit ''GOOGLE_API_KEY'')"
  have msg: "lit ''GEMINI_API_KEY'' @ lit '' is not set in the environment variables.''
             = lit ''GEMINI_API_KEY is not set in the environment variables.''"
    by (simp add: lit_def)
  have a: "module_top E w =
           (None,
            st_error (lit ''GEMINI_API_KEY'' @ lit '' is not set in the environment variables.'')
              (w\<lparr>environ := environ w ++ dotenv_values E (disk w)\<rparr>))
         \<and> genai_api_key (snd (module_top E w)) = genai_api_key w
         \<and> fst (script E inp w) = Stopped
         \<and> calls (snd (script E inp w)) = calls w"
    if "?k = None \<or> ?k = Some []"
    using module_top_stops [OF that] by (simp add: msg script_def)
  have b: "(\<exists>g. fst (module_top E w) = Some g) \<longleftrightarrow> (\<exists>key. ?k = Some key \<and> key \<noteq> [])"
  proof (cases "?k = None \<or> ?k = Some []")
    case True
    with module_top_stops [OF True] show ?thesis by auto
  next
    case False
    from present_key [OF this] obtain key where k: "?k = Some key" "key \<noteq> []"
      by (elim exE conjE)
    with module_top_ready [OF k] show ?thesis by simp
  qed
  have c: "model g = GenerativeModel (lit ''gemini-1.5-flash'')
         \<and> ?k = Some (gemini_api_key g)
         \<and> genai_api_key (snd (module_top E w)) = Some (gemini_api_key g)"
    if g: "fst (module_top E w) = Some g" for g
  proof (cases "?k = None \<or> ?k = Some []")
    case True
    with module_top_stops [OF True] g show ?thesis by simp
  next
    case False
    from present_key [OF this] obtain key where k: "?k = Some key" "key \<noteq> []"
      by (elim exE conjE)
    with module_top_ready [OF k] g show ?thesis by (auto simp: gemini_model_name_def)
  qed
  from a b c show ?thesis by blast
qed

theorem missing_key_stops_the_app_witness:
  "fst (script (example_env []) (example_inputs (lit ''Dashboard'') [7]) example_world) = Stopped
   \<and> calls (snd (script (example_env []) (example_inputs (lit ''Dashboard'') [7]) example_world))
       = calls example_world
   \<and> genai_api_key (snd (module_top (example_env []) example_world)) = genai_api_key example_world
   \<and> model (the (fst (module_top (example_env [])
                        (example_world\<lparr>environ := [lit ''GOOGLE_API_KEY'' \<mapsto> lit ''secret'']\<rparr>))))
       = GenerativeModel (lit ''gemini-1.5-flash'')"
proof -
  let ?E = "example_env [] :: (nat, nat) env"
  let ?inp = "example_inputs (lit ''Dashboard'') [7]"
  let ?w = "example_world\<lparr>environ := [lit ''GOOGLE_API_KEY'' \<mapsto> lit ''secret'']\<rparr>"
  have k: "(environ example_world ++ dotenv_values ?E (disk example_world)) (lit ''GOOGLE_API_KEY'')
             = None
           \<or> (environ example_world ++ dotenv_values ?E (disk example_world)) (lit ''GOOGLE_API_KEY'')
             = Some []"
    by (simp add: example_world_def example_env_def)
  note t1 = missing_key_stops_the_app [where E = ?E and w = example_world and inp = ?inp,
      THEN conjunct1, THEN mp, OF k]
  have g: "fst (module_top ?E ?w)
            = Some \<lparr>gemini_api_key = lit ''secret'', model = GenerativeModel gemini_model_name\<rparr>"
    by (simp add: module_top_def Let_def example_world_def example_env_def lit_def)
  note t3 = missing_key_stops_the_app [where E = ?E and w = ?w and inp = ?inp,
      THEN conjunct2, THEN conjunct2, THEN spec, THEN mp, OF g, THEN conjunct1]
  from t1 t3 g show ?thesis by simp
qed

text \<open>
  Claim C10. The Dashboard page changes the session state only when some call of
  \<open>analyze_image\<close> gave a usable result (a list that is not empty). When calls were
  made and none gave a usable result, the session state is left as it was and the last
  thing shown is the error about all images. Whenever the block of lines 101 to 129 is
  entered (some image was uploaded), at least one call is made.
\<close>

theorem dashboard_assigns_usable_results_only:
  "(session_state (snd (dashboard E m inp w)) \<noteq> session_state w \<longrightarrow>
      (\<exists>imgs. uploaded_images_of inp = Some imgs
          \<and> list_ex usable
               (analysis_results E m imgs (render (StHeader (lit ''Wardrobe Dashboard'')) w))))
   \<and> (\<forall>imgs. uploaded_images_of inp = Some imgs
         \<and> analysis_results E m imgs (render (StHeader (lit ''Wardrobe Dashboard'')) w) \<noteq> []
         \<and> list_all (\<lambda>r. \<not> usable r)
             (analysis_results E m imgs (render (StHeader (lit ''Wardrobe Dashboard'')) w))
       \<longrightarrow> session_state (snd (dashboard E m inp w)) = session_state w
           \<and> fst (dashboard E m inp w) = None
           \<and> last (ui (snd (dashboard E m inp w)))
               = StError (lit ''Could not get analysis, please try again for all images.''))
   \<and> (\<forall>imgs. uploaded_images_of inp = Some imgs \<and> imgs \<noteq> [] \<longrightarrow>
         analysis_results E m imgs (render (StHeader (lit ''Wardrobe Dashboard'')) w) \<noteq> [])"
proof -
  let ?w1 = "render (StHeader (lit ''Wardrobe Dashboard'')) w"
  have a: "\<exists>imgs. uploaded_images_of inp = Some imgs \<and> list_ex usable (analysis_results E m imgs ?w1)"
    if changed: "session_state (snd (dashboard E m inp w)) \<noteq> session_state w"
  proof (cases "uploaded_images_of inp")
    case None
    with dashboard_no_images [of inp E m w] changed show ?thesis by simp
  next
    case (Some imgs)
    have "list_ex usable (analysis_results E m imgs ?w1)"
    proof (rule ccontr)
      assume "\<not> list_ex usable (analysis_results E m imgs ?w1)"
      then have "list_all (\<lambda>r. \<not> usable r) (analysis_results E m imgs ?w1)"
        by (simp add: no_usable_iff)
      from dashboard_nothing_stored(1) [OF Some this] changed show False by simp
    qed
    with Some show ?thesis by blast
  qed
  have b: "session_state (snd (dashboard E m inp w)) = session_state w
             \<and> fst (dashboard E m inp w) = None
             \<and> last (ui (snd (dashboard E m inp w)))
                 = StError (lit ''Could not get analysis, please try again for all images.'')"
    if "uploaded_images_of inp = Some imgs" "analysis_results E m imgs ?w1 \<noteq> []"
      "list_all (\<lambda>r. \<not> usable r) (analysis_results E m imgs ?w1)" for imgs
  proof -
    from that(2) have "imgs \<noteq> []" by auto
    with dashboard_nothing_stored [OF that(1) that(3)] show ?thesis by simp
  qed
  have c: "analysis_results E m imgs ?w1 \<noteq> []"
    if "uploaded_images_of inp = Some imgs" "imgs \<noteq> []" for imgs
    using analysis_results_of_files [OF that(2) uploaded_images_are_files [OF that(1)]] .
  from a b c show ?thesis by blast
qed

theorem dashboard_assigns_usable_results_only_witness:
  "analysis_results (example_env (lit ''I see no clothing here. '')) (GenerativeModel [])
       [Some 7] (render (StHeader (lit ''Wardrobe Dashboard'')) example_world) \<noteq> []
   \<and> session_state
      (snd (dashboard (example_env (lit ''I see no clothing here. '')) (GenerativeModel [])
              (example_inputs (lit ''Dashboard'') [7]) example_world))
     = session_state example_world
   \<and> last (ui (snd (dashboard (example_env (lit ''I see no clothing here. ''))
                       (GenerativeModel []) (example_inputs (lit ''Dashboard'') [7])
                       example_world)))
     = StError (lit ''Could not get analysis, please try again for all images.'')"
proof -
  let ?r = "lit ''I see no clothing here. ''"
  let ?E = "example_env ?r"
  let ?m = "GenerativeModel []"
  let ?inp = "example_inputs (lit ''Dashboard'') [7]"
  let ?w1 = "render (StHeader (lit ''Wardrobe Dashboard'')) example_world"
  let ?w0 = "render (StSpinner (lit ''Analyzing Image...''))
               (render (StImage 7 (lit ''Uploaded Wardrobe Image'')) ?w1)"
  have u: "uploaded_images_of ?inp = Some [Some 7]"
    by (simp add: uploaded_images_of_def example_inputs_def)
  have h1: "image_open ?E 7 = Inr 7" by (simp add: example_env_def)
  have h2: "generate_content ?E ?m (length (calls ?w0)) (PromptAndImage analyze_prompt 7)
              = Inr (Inr ?r)"
    by (simp add: example_env_def)
  have h3: "re_search json_array_pattern (strip ?r) = None"
    by (simp add: json_array_pattern_def strip_def lit_def isspace_def)
  have "fst (analyze_image ?E ?m 7 ?w0) = None"
    using analyze_image_on_reply [OF h1 h2] h3 by (simp add: Let_def)
  then have rs: "list_all (\<lambda>r. \<not> usable r) (analysis_results ?E ?m [Some 7] ?w1)"
    by (cases "analyze_image ?E ?m 7 ?w0") (simp add: usable_def)
  note t = dashboard_assigns_usable_results_only [where E = ?E and m = ?m and inp = ?inp
      and w = example_world]
  note t2 = t [THEN conjunct2, THEN conjunct1, THEN spec, THEN mp]
  note t3 = t [THEN conjunct2, THEN conjunct2, THEN spec, THEN mp]
  have ne: "analysis_results ?E ?m [Some 7] ?w1 \<noteq> []"
    by (rule t3) (intro conjI, rule u, simp)
  have "session_state (snd (dashboard ?E ?m ?inp example_world)) = session_state example_world
        \<and> fst (dashboard ?E ?m ?inp example_world) = None
        \<and> last (ui (snd (dashboard ?E ?m ?inp example_world)))
            = StError (lit ''Could not get analysis, please try again for all images.'')"
    by (rule t2) (intro conjI, rule u, rule ne, rule rs)
  with ne show ?thesis by blast
qed

end
